theory Spec2Isabelle
  imports Complex_Main "HOL-Library.Log_Nat"
begin

section \<open>JavaScript numbers\<close>

text \<open>
  The controller computes the percentage with JavaScript numbers, which are IEEE-754
  binary64 values. A finite double is a rational, so a number is modelled as a rational
  that is the exact value of the double, next to the two special values the code can
  produce. Every arithmetic operation rounds its exact result to the nearest double,
  ties to the even significand.

  The exponent range of binary64 is not modelled: the operands of the controller are
  counts of array elements (below \<open>2 ^ 32\<close>) and the literal \<open>100\<close>, so that
  every non-zero intermediate value lies between \<open>2 ^ - 32\<close> and \<open>100\<close>, far
  from overflow and from the subnormal range.
\<close>

datatype number = Num rat | Infinity | NaN

definition round_half_even :: "rat \<Rightarrow> int" where
  "round_half_even y =
     (let f = \<lfloor>y\<rfloor>; r = y - of_int f
      in if r < 1 / 2 then f
         else if 1 / 2 < r then f + 1
         else if even f then f else f + 1)"

text \<open>The binade of a positive rational \<open>q\<close> is the integer \<open>e\<close> with
  \<open>2 ^ e \<le> q < 2 ^ (e + 1)\<close>, found from the bit lengths of numerator and denominator.\<close>

definition binade :: "rat \<Rightarrow> int" where
  "binade q =
     (let (a, b) = quotient_of q;
          d = int (floorlog 2 (nat a)) - int (floorlog 2 (nat b))
      in if 2 powi d \<le> q then d else d - 1)"

text \<open>Rounding to 53 significant bits: the unit in the last place of the binade of
  \<open>\<bar>q\<bar>\<close> is \<open>2 ^ (e - 52)\<close>.\<close>

definition round_double :: "rat \<Rightarrow> rat" where
  "round_double q =
     (if q = 0 then 0
      else let u = 2 powi (binade \<bar>q\<bar> - 52)
           in sgn q * of_int (round_half_even (\<bar>q\<bar> / u)) * u)"

text \<open>\<^verbatim>\<open>correctCount / totalQuestions\<close>: both operands are non-negative integers
  (a counter and an array length), exactly representable.\<close>

definition js_div :: "nat \<Rightarrow> nat \<Rightarrow> number" where
  "js_div k n =
     (if n = 0 then (if k = 0 then NaN else Infinity)
      else Num (round_double (of_nat k / of_nat n)))"

text \<open>\<^verbatim>\<open>x * c\<close> for a positive finite literal \<open>c\<close> and a non-negative \<open>x\<close>.\<close>

fun js_mul :: "number \<Rightarrow> rat \<Rightarrow> number" where
  "js_mul (Num x) c = Num (round_double (x * c))"
| "js_mul Infinity c = Infinity"
| "js_mul NaN c = NaN"

text \<open>\<^verbatim>\<open>x >= c\<close> for a literal \<open>c\<close>: every comparison with NaN is false.\<close>

fun js_ge :: "number \<Rightarrow> rat \<Rightarrow> bool" where
  "js_ge (Num x) c = (c \<le> x)"
| "js_ge Infinity c = True"
| "js_ge NaN c = False"

text \<open>
  \<^verbatim>\<open>x.toFixed(2)\<close> for a finite \<open>x\<close> of magnitude below \<open>10 ^ 21\<close>: a
  negative \<open>x\<close> is printed as the sign followed by the digits of \<open>- x\<close>; for a
  non-negative \<open>x\<close> the digits are those of the integer \<open>n\<close> for which
  \<open>n / 100 - x\<close> is as close to zero as possible, the larger one if there are two,
  with a decimal point before the last two. The printed decimal is kept as its number of
  hundredths.
\<close>

definition toFixed2 :: "rat \<Rightarrow> int" where
  "toFixed2 x = (if x < 0 then - \<lfloor>- x * 100 + 1 / 2\<rfloor> else \<lfloor>x * 100 + 1 / 2\<rfloor>)"

text \<open>\<^verbatim>\<open>parseFloat(x.toFixed(2))\<close>: the double nearest to the printed decimal;
  \<^verbatim>\<open>"NaN"\<close> and \<^verbatim>\<open>"Infinity"\<close> parse back to themselves.\<close>

fun parseFloat_toFixed2 :: "number \<Rightarrow> number" where
  "parseFloat_toFixed2 (Num x) = Num (round_double (of_int (toFixed2 x) / 100))"
| "parseFloat_toFixed2 Infinity = Infinity"
| "parseFloat_toFixed2 NaN = NaN"

section \<open>Data model\<close>

text \<open>
  The tables of \<^verbatim>\<open>initializeDatabase\<close> and the interfaces of the type module.
  An identifier is a text: what the store prints for a value of a \<^verbatim>\<open>UUID\<close> column,
  and whatever text a request carries in \<^verbatim>\<open>question_id\<close>. The store reads a text
  that is compared with such a column by \<open>uuid_in\<close> below. The fields of a request have the types of the
  interface \<^verbatim>\<open>QuizSubmission\<close>. The timestamp columns (\<^verbatim>\<open>created_at\<close>,
  \<^verbatim>\<open>completed_at\<close>) are left out: no operation below reads them.
\<close>

type_synonym uuid = string

record topic =
  t_id :: uuid
  t_name :: string
  t_slug :: string
  t_description :: string
  t_icon :: string
  t_difficulty :: string
  t_is_active :: bool

record question =
  q_id :: uuid
  q_topic_id :: uuid
  q_question :: string
  q_options :: "string list"
  q_correct_answer :: int
  q_difficulty :: string
  q_explanation :: string

text \<open>\<^verbatim>\<open>QuestionForQuiz\<close>: the row shape of
  \<^verbatim>\<open>SELECT id, question, options, difficulty\<close>.\<close>

record questionForQuiz =
  fq_id :: uuid
  fq_question :: string
  fq_options :: "string list"
  fq_difficulty :: string

record quizAttempt =
  qa_id :: uuid
  qa_user_id :: uuid
  qa_topic_id :: uuid
  qa_score :: nat
  qa_total_questions :: nat
  qa_percentage :: number
  qa_time_taken :: int

record userAnswer =
  ua_id :: uuid
  ua_attempt_id :: uuid
  ua_question_id :: uuid
  ua_selected_answer :: int
  ua_is_correct :: bool
  ua_time_taken :: int

record store =
  topics :: "topic list"
  questions :: "question list"
  quiz_attempts :: "quizAttempt list"
  user_answers :: "userAnswer list"

text \<open>The request body of \<^verbatim>\<open>POST /api/quiz/submit\<close>. A field that is missing
  from the JSON is \<open>None\<close>; \<open>answers\<close> is also \<open>None\<close> when the value sent is
  not an array.\<close>

record submittedAnswer =
  a_question_id :: uuid
  a_selected_answer :: int
  a_time_taken :: "int option"

record quizSubmission =
  topic_slug :: "string option"
  answers :: "submittedAnswer list option"
  total_time :: "int option"

text \<open>\<open>user\<close> is the \<^verbatim>\<open>userId\<close> of the verified token, absent when the caller is
  not authenticated.\<close>

record authRequest =
  user :: "uuid option"
  body :: quizSubmission

record detailedAnswer =
  da_question_id :: uuid
  da_question :: string
  da_options :: "string list"
  da_selected_answer :: int
  da_correct_answer :: int
  da_is_correct :: bool
  da_explanation :: string
  da_difficulty :: string
  da_time_taken :: int

record topicAnalysis =
  ta_topic :: string
  ta_correct :: nat
  ta_total :: nat
  ta_percentage :: number

record quizResult =
  r_attempt_id :: uuid
  r_score :: nat
  r_total_questions :: nat
  r_percentage :: number
  r_grade :: string
  r_feedback :: string
  r_time_taken :: int
  r_answers :: "detailedAnswer list"
  r_topic_analysis :: topicAnalysis

text \<open>A response is the 200 envelope with its result, or an error status with its
  message.\<close>

datatype response = Json200 quizResult | JsonError nat string

text \<open>What \<^verbatim>\<open>query\<close> throws: it logs the error of the store and throws it again.
  \<open>InvalidTextRepresentation\<close> is the store's error 22P02, raised for a text that
  is no value of the column type it is compared with.\<close>

datatype db_error = UniqueViolation | NegativeLimit | InvalidTextRepresentation

section \<open>Identifiers as the store reads them\<close>

text \<open>
  The column \<^verbatim>\<open>questions.id\<close> has type \<^verbatim>\<open>UUID\<close>, so the store converts each
  text of the parameter of \<^verbatim>\<open>id = ANY($1)\<close> to a value of that type, sixteen bytes,
  before it compares. The input function of the type accepts thirty-two hexadecimal
  digits of either case, with an optional hyphen after each group of four digits and an
  optional pair of braces around the whole, and nothing else: no surrounding blanks, no
  other characters.
\<close>

type_synonym uuid_value = "nat list"

definition hexval :: "char \<Rightarrow> nat option" where
  "hexval c =
     map_of (zip ''0123456789abcdefABCDEF''
               [0, 1, 2, 3, 4, 5, 6, 7, 8, 9, 10, 11, 12, 13, 14, 15, 10, 11, 12, 13, 14, 15]) c"

text \<open>\<open>uuid_bytes n src\<close> reads the last \<open>n\<close> of the sixteen bytes, two digits
  each, and returns them with the text that is left. A hyphen is skipped after the
  second, fourth, ..., fourteenth byte.\<close>

fun uuid_bytes :: "nat \<Rightarrow> string \<Rightarrow> (uuid_value \<times> string) option" where
  "uuid_bytes 0 src = Some ([], src)"
| "uuid_bytes (Suc n) (c1 # c2 # src) =
     (case (hexval c1, hexval c2) of
        (Some h, Some l) \<Rightarrow>
          (case uuid_bytes n (if even n \<and> 0 < n \<and> take 1 src = ''-'' then tl src else src) of
             None \<Rightarrow> None
           | Some (bs, rest) \<Rightarrow> Some ((16 * h + l) # bs, rest))
      | _ \<Rightarrow> None)"
| "uuid_bytes (Suc n) src = None"

text \<open>\<open>uuid_in\<close>: the value a text denotes, \<open>None\<close> when the store rejects the
  text.\<close>

definition uuid_in :: "string \<Rightarrow> uuid_value option" where
  "uuid_in source =
     (let braces = (take 1 source = ''{'');
          src = (if braces then tl source else source)
      in case uuid_bytes 16 src of
           None \<Rightarrow> None
         | Some (bs, rest) \<Rightarrow>
             if rest = (if braces then ''}'' else []) then Some bs else None)"

section \<open>Question store access\<close>

text \<open>\<^verbatim>\<open>getTopicBySlug\<close>: the first row with that slug that is active, or null.\<close>

definition getTopicBySlug :: "string \<Rightarrow> store \<Rightarrow> topic option" where
  "getTopicBySlug slug s = find (\<lambda>t. t_slug t = slug \<and> t_is_active t) (topics s)"

text \<open>\<^verbatim>\<open>getQuestionsByIds\<close>:
  \<^verbatim>\<open>SELECT * FROM questions WHERE id = ANY($1)\<close>. The store converts every text
  of the array to a \<^verbatim>\<open>UUID\<close> and raises its error when one of them is none; the
  function has no \<^verbatim>\<open>try\<close>, so the error reaches the caller. Otherwise the rows are
  those whose id is the same value as one of the array, whatever the spelling.\<close>

definition getQuestionsByIds :: "uuid list \<Rightarrow> store \<Rightarrow> db_error + question list" where
  "getQuestionsByIds ids s =
     (if None \<in> set (map uuid_in ids) then Inl InvalidTextRepresentation
      else Inr (filter (\<lambda>q. uuid_in (q_id q) \<in> set (map uuid_in ids)) (questions s)))"

definition forQuiz :: "question \<Rightarrow> questionForQuiz" where
  "forQuiz q =
     \<lparr>fq_id = q_id q, fq_question = q_question q, fq_options = q_options q,
      fq_difficulty = q_difficulty q\<rparr>"

text \<open>
  \<^verbatim>\<open>getQuestionsForQuiz\<close>. The \<^verbatim>\<open>WHERE\<close> clause selects the rows of the topic,
  and of the difficulty when one is given (an empty string is falsy and adds no
  condition). \<^verbatim>\<open>ORDER BY RANDOM()\<close> draws one key per selected row and sorts by it:
  \<open>rnd i\<close> is the key of the \<open>i\<close>-th selected row. \<^verbatim>\<open>LIMIT\<close> keeps a prefix and
  the store rejects a negative limit. The limit defaults to 10.
\<close>

definition getQuestionsForQuiz ::
  "(nat \<Rightarrow> nat) \<Rightarrow> uuid \<Rightarrow> int option \<Rightarrow> string option \<Rightarrow> store
     \<Rightarrow> db_error + questionForQuiz list" where
  "getQuestionsForQuiz rnd topicId limit difficulty s =
     (let lim = (case limit of None \<Rightarrow> 10 | Some l \<Rightarrow> l);
          rows = filter (\<lambda>q. q_topic_id q = topicId \<and>
                    (case difficulty of None \<Rightarrow> True
                     | Some d \<Rightarrow> if d = [] then True else q_difficulty q = d))
                   (questions s);
          ordered = map snd (sort_key fst (zip (map rnd [0..<length rows]) rows))
      in if lim < 0 then Inl NegativeLimit
         else Inr (map forQuiz (take (nat lim) ordered)))"

section \<open>Attempt persistence\<close>

text \<open>
  Both inserts let the store generate the primary key with
  \<^verbatim>\<open>gen_random_uuid()\<close>: the drawn identifier is an argument of the model, and the
  insert fails when the key is already in the table. No other failure of the store is
  modelled. A row keeps the values the code passes; the rounding that the column type
  \<^verbatim>\<open>DECIMAL(5,2)\<close> applies to the percentage inside the store is not modelled.
\<close>

definition createQuizAttempt ::
  "uuid \<Rightarrow> uuid \<Rightarrow> uuid \<Rightarrow> nat \<Rightarrow> nat \<Rightarrow> number \<Rightarrow> int \<Rightarrow> store
     \<Rightarrow> db_error + quizAttempt \<times> store" where
  "createQuizAttempt new userId topicId score totalQuestions percentage timeTaken s =
     (if new \<in> qa_id ` set (quiz_attempts s) then Inl UniqueViolation
      else let row = \<lparr>qa_id = new, qa_user_id = userId, qa_topic_id = topicId,
                        qa_score = score, qa_total_questions = totalQuestions,
                        qa_percentage = percentage, qa_time_taken = timeTaken\<rparr>
           in Inr (row, s\<lparr>quiz_attempts := quiz_attempts s @ [row]\<rparr>))"

definition saveUserAnswer ::
  "uuid \<Rightarrow> uuid \<Rightarrow> uuid \<Rightarrow> int \<Rightarrow> bool \<Rightarrow> int \<Rightarrow> store
     \<Rightarrow> db_error + userAnswer \<times> store" where
  "saveUserAnswer new attemptId questionId selectedAnswer isCorrect timeTaken s =
     (if new \<in> ua_id ` set (user_answers s) then Inl UniqueViolation
      else let row = \<lparr>ua_id = new, ua_attempt_id = attemptId, ua_question_id = questionId,
                        ua_selected_answer = selectedAnswer, ua_is_correct = isCorrect,
                        ua_time_taken = timeTaken\<rparr>
           in Inr (row, s\<lparr>user_answers := user_answers s @ [row]\<rparr>))"

section \<open>The quiz controller: submission and scoring\<close>

text \<open>\<^verbatim>\<open>new Map(questions.map((q) => [q.id, q]))\<close>: a later entry with the same key
  replaces an earlier one.\<close>

definition questionMapOf :: "question list \<Rightarrow> (uuid \<rightharpoonup> question)" where
  "questionMapOf qs = foldl (\<lambda>m q. m(q_id q \<mapsto> q)) Map.empty qs"

text \<open>The record pushed on \<^verbatim>\<open>detailedAnswers\<close> for a matched answer;
  \<^verbatim>\<open>answer.time_taken || 0\<close> turns a missing time into 0.\<close>

definition detailOf :: "submittedAnswer \<Rightarrow> question \<Rightarrow> detailedAnswer" where
  "detailOf answer q =
     \<lparr>da_question_id = q_id q, da_question = q_question q, da_options = q_options q,
      da_selected_answer = a_selected_answer answer,
      da_correct_answer = q_correct_answer q,
      da_is_correct = (a_selected_answer answer = q_correct_answer q),
      da_explanation = q_explanation q, da_difficulty = q_difficulty q,
      da_time_taken = (case a_time_taken answer of None \<Rightarrow> 0 | Some t \<Rightarrow> t)\<rparr>"

text \<open>The loop \<^verbatim>\<open>for (const answer of answers)\<close> of \<^verbatim>\<open>submitQuiz\<close>, with its two
  variables \<^verbatim>\<open>correctCount\<close> and \<^verbatim>\<open>detailedAnswers\<close>; an answer without a
  question in the map takes the \<^verbatim>\<open>continue\<close>.\<close>

fun scoreLoop ::
  "(uuid \<rightharpoonup> question) \<Rightarrow> submittedAnswer list \<Rightarrow> nat \<Rightarrow> detailedAnswer list
     \<Rightarrow> nat \<times> detailedAnswer list" where
  "scoreLoop questionMap [] correctCount detailedAnswers = (correctCount, detailedAnswers)"
| "scoreLoop questionMap (answer # rest) correctCount detailedAnswers =
     (case questionMap (a_question_id answer) of
        None \<Rightarrow> scoreLoop questionMap rest correctCount detailedAnswers
      | Some q \<Rightarrow>
          scoreLoop questionMap rest
            (if a_selected_answer answer = q_correct_answer q
             then correctCount + 1 else correctCount)
            (detailedAnswers @ [detailOf answer q]))"

text \<open>The grade and its feedback, assigned together by the chain of comparisons. The
  feedback texts are the bytes of the source file.\<close>

definition gradeFeedback :: "number \<Rightarrow> string \<times> string" where
  "gradeFeedback percentage =
     (if js_ge percentage 90 then
        (''A+'', [CHR 0xC3, CHR 0xB0, CHR 0xC5, CHR 0xB8, CHR 0xC5, CHR 0x92, CHR 0xC5, CHR 0xB8]
           @ '' Outstanding! You'' @ [CHR 0x27]
           @ ''re in the top tier! Keep up the excellent work!'')
      else if js_ge percentage 80 then
        (''A'', [CHR 0xC3, CHR 0xB0, CHR 0xC5, CHR 0xB8, CHR 0xC5, CHR 0xBD, CHR 0xE2, CHR 0x80,
                 CHR 0xB0]
           @ '' Excellent work! You have a strong grasp of this topic!'')
      else if js_ge percentage 70 then
        (''B+'', [CHR 0xC3, CHR 0xB0, CHR 0xC5, CHR 0xB8, CHR 0xE2, CHR 0x80, CHR 0x99, CHR 0xC2,
                  CHR 0xAA]
           @ '' Great job! Review the questions you missed to improve further.'')
      else if js_ge percentage 60 then
        (''B'', [CHR 0xC3, CHR 0xB0, CHR 0xC5, CHR 0xB8, CHR 0xE2, CHR 0x80, CHR 0x98]
           @ '' Good effort! Focus on your weak areas to reach the next level.'')
      else if js_ge percentage 50 then
        (''C'', [CHR 0xC3, CHR 0xB0, CHR 0xC5, CHR 0xB8, CHR 0xE2, CHR 0x80, CHR 0x9C, CHR 0xC5,
                 CHR 0xA1]
           @ '' Fair performance. More practice will help solidify your understanding.'')
      else if js_ge percentage 40 then
        (''D'', [CHR 0xC3, CHR 0xB0, CHR 0xC5, CHR 0xB8, CHR 0xC5, CHR 0xBD, CHR 0xC2, CHR 0xAF]
           @ '' You'' @ [CHR 0x27] @ ''re getting there! Review the basics and try again.'')
      else (''F'', ''Keep practicing! Focus on understanding the concepts.''))"

text \<open>
  The loop \<^verbatim>\<open>for (const answer of detailedAnswers) await saveUserAnswer(...)\<close>. The
  \<open>i\<close>-th insert draws the key \<open>gen i\<close>. A failing insert ends the loop with the
  rows written so far kept: nothing is rolled back.
\<close>

fun saveAnswers ::
  "(nat \<Rightarrow> uuid) \<Rightarrow> nat \<Rightarrow> uuid \<Rightarrow> detailedAnswer list \<Rightarrow> store
     \<Rightarrow> db_error option \<times> store" where
  "saveAnswers gen i attemptId [] s = (None, s)"
| "saveAnswers gen i attemptId (answer # rest) s =
     (case saveUserAnswer (gen i) attemptId (da_question_id answer)
             (da_selected_answer answer) (da_is_correct answer) (da_time_taken answer) s of
        Inl e \<Rightarrow> (Some e, s)
      | Inr (row, s') \<Rightarrow> saveAnswers gen (Suc i) attemptId rest s')"

text \<open>
  \<^verbatim>\<open>submitQuiz\<close>. \<open>gen 0\<close> is the key drawn for the attempt, \<open>gen 1\<close>,
  \<open>gen 2\<close>, ... those drawn for the answer rows. The checks come in the order of the
  source: authentication, shape of the body, topic. Whatever \<^verbatim>\<open>query\<close> throws is
  caught and answered with status 500.
\<close>

definition submitQuiz :: "(nat \<Rightarrow> uuid) \<Rightarrow> authRequest \<Rightarrow> store \<Rightarrow> response \<times> store" where
  "submitQuiz gen req s =
     (case user req of
        None \<Rightarrow> (JsonError 401 ''Authentication required'', s)
      | Some userId \<Rightarrow>
     (case topic_slug (body req) of
        None \<Rightarrow> (JsonError 400 ''Invalid quiz submission data'', s)
      | Some slug \<Rightarrow>
     (if slug = [] then (JsonError 400 ''Invalid quiz submission data'', s) else
     (case answers (body req) of
        None \<Rightarrow> (JsonError 400 ''Invalid quiz submission data'', s)
      | Some as \<Rightarrow>
     (case getTopicBySlug slug s of
        None \<Rightarrow> (JsonError 404 ''Topic not found'', s)
      | Some topic \<Rightarrow>
          let questionIds = map a_question_id as in
          (case getQuestionsByIds questionIds s of
             Inl e \<Rightarrow> (JsonError 500 ''Failed to submit quiz'', s)
           | Inr qs \<Rightarrow>
          let questionMap = questionMapOf qs;
              (correctCount, detailedAnswers) = scoreLoop questionMap as 0 [];
              totalQuestions = length as;
              percentage = js_mul (js_div correctCount totalQuestions) 100;
              (grade, feedback) = gradeFeedback percentage;
              timeTaken = (case total_time (body req) of None \<Rightarrow> 0 | Some t \<Rightarrow> t)
          in (case createQuizAttempt (gen 0) userId (t_id topic) correctCount totalQuestions
                     percentage timeTaken s of
                Inl e \<Rightarrow> (JsonError 500 ''Failed to submit quiz'', s)
              | Inr (attempt, s1) \<Rightarrow>
                  (case saveAnswers gen 1 (qa_id attempt) detailedAnswers s1 of
                     (Some e, s2) \<Rightarrow> (JsonError 500 ''Failed to submit quiz'', s2)
                   | (None, s2) \<Rightarrow>
                       (Json200
                          \<lparr>r_attempt_id = qa_id attempt,
                           r_score = correctCount,
                           r_total_questions = totalQuestions,
                           r_percentage = parseFloat_toFixed2 percentage,
                           r_grade = grade,
                           r_feedback = feedback,
                           r_time_taken = timeTaken,
                           r_answers = detailedAnswers,
                           r_topic_analysis =
                             \<lparr>ta_topic = t_name topic, ta_correct = correctCount,
                              ta_total = totalQuestions, ta_percentage = percentage\<rparr>\<rparr>,
                        s2)))))))))"

text \<open>Two shorthands for the statements below: the lookup that \<^verbatim>\<open>submitQuiz\<close> builds
  for a list of answers from the rows that \<^verbatim>\<open>getQuestionsByIds\<close> returns (when the
  query throws there are no rows, and \<^verbatim>\<open>submitQuiz\<close> builds no lookup), and the
  expression \<^verbatim>\<open>(correctCount / totalQuestions) * 100\<close>.\<close>

abbreviation questionMapFor :: "submittedAnswer list \<Rightarrow> store \<Rightarrow> (uuid \<rightharpoonup> question)" where
  "questionMapFor as s \<equiv>
     questionMapOf (case getQuestionsByIds (map a_question_id as) s of
                      Inl e \<Rightarrow> [] | Inr qs \<Rightarrow> qs)"

abbreviation percentageOf :: "nat \<Rightarrow> nat \<Rightarrow> number" where
  "percentageOf correctCount totalQuestions \<equiv> js_mul (js_div correctCount totalQuestions) 100"

section \<open>The two roundings the specification names\<close>

text \<open>
  The specification asks for the exact quotient \<open>100 * score / total\<close> rounded to two
  decimal places, with ties broken either away from zero or to the even neighbour. These
  two definitions follow the specification's words, not the source; they are only
  compared with what the source computes.
\<close>

definition spec_round2_half_away :: "rat \<Rightarrow> rat" where
  "spec_round2_half_away x = sgn x * of_int \<lfloor>\<bar>x\<bar> * 100 + 1 / 2\<rfloor> / 100"

definition spec_round2_half_even :: "rat \<Rightarrow> rat" where
  "spec_round2_half_even x = of_int (round_half_even (x * 100)) / 100"

section \<open>Concrete stores and requests\<close>

text \<open>A store with the topic \<open>javascript\<close> and the first two seeded questions, and
  the keys the store draws: \<open>demoGen\<close> never repeats a key.\<close>

definition qid1 :: uuid where
  "qid1 = ''a0eebc99-9c0b-4ef8-bb6d-6bb9bd380a11''"

definition qid2 :: uuid where
  "qid2 = ''a0eebc99-9c0b-4ef8-bb6d-6bb9bd380a12''"

text \<open>An identifier that no question of the store has, and the first identifier in
  capitals and in braces.\<close>

definition qid9 :: uuid where
  "qid9 = ''a0eebc99-9c0b-4ef8-bb6d-6bb9bd380a19''"

definition qid1_capitals :: uuid where
  "qid1_capitals = ''{A0EEBC99-9C0B-4EF8-BB6D-6BB9BD380A11}''"

definition demoTopic :: topic where
  "demoTopic =
     \<lparr>t_id = ''t1'', t_name = ''JavaScript'', t_slug = ''javascript'',
      t_description = ''Test your JavaScript fundamentals and ES6+ features'',
      t_icon = ''js'', t_difficulty = ''intermediate'', t_is_active = True\<rparr>"

definition demoQ1 :: question where
  "demoQ1 =
     \<lparr>q_id = qid1, q_topic_id = ''t1'',
      q_question = ''What is the output of: console.log(typeof null)?'',
      q_options = [''null'', ''undefined'', ''object'', ''number''],
      q_correct_answer = 2, q_difficulty = ''easy'',
      q_explanation = ''typeof null returns object''\<rparr>"

definition demoQ2 :: question where
  "demoQ2 =
     \<lparr>q_id = qid2, q_topic_id = ''t1'',
      q_question = ''Which method is used to add elements to the end of an array?'',
      q_options = [''shift()'', ''push()'', ''unshift()'', ''pop()''],
      q_correct_answer = 1, q_difficulty = ''easy'',
      q_explanation = ''push() adds elements to the end of an array''\<rparr>"

definition demoStore :: store where
  "demoStore =
     \<lparr>topics = [demoTopic], questions = [demoQ1, demoQ2], quiz_attempts = [],
      user_answers = []\<rparr>"

definition demoGen :: "nat \<Rightarrow> uuid" where
  "demoGen n = replicate (Suc n) (CHR ''k'')"

text \<open>Three answers: the first question answered correctly, an identifier that no
  question has, the second question answered wrongly.\<close>

definition demoAnswers :: "submittedAnswer list" where
  "demoAnswers =
     [\<lparr>a_question_id = qid1, a_selected_answer = 2, a_time_taken = Some 5\<rparr>,
      \<lparr>a_question_id = qid9, a_selected_answer = 0, a_time_taken = None\<rparr>,
      \<lparr>a_question_id = qid2, a_selected_answer = 3, a_time_taken = Some 7\<rparr>]"

definition demoRequest :: authRequest where
  "demoRequest =
     \<lparr>user = Some ''u1'',
      body = \<lparr>topic_slug = Some ''javascript'', answers = Some demoAnswers,
              total_time = Some 12\<rparr>\<rparr>"

text \<open>The same request with an empty array of answers.\<close>

definition emptyRequest :: authRequest where
  "emptyRequest =
     \<lparr>user = Some ''u1'',
      body = \<lparr>topic_slug = Some ''javascript'', answers = Some [], total_time = Some 12\<rparr>\<rparr>"

text \<open>A request of 160 answers to the first question, 23 of them correct.\<close>

definition tieAnswers :: "submittedAnswer list" where
  "tieAnswers =
     replicate 23 \<lparr>a_question_id = qid1, a_selected_answer = 2, a_time_taken = None\<rparr> @
     replicate 137 \<lparr>a_question_id = qid1, a_selected_answer = 0, a_time_taken = None\<rparr>"

definition tieRequest :: authRequest where
  "tieRequest =
     \<lparr>user = Some ''u1'',
      body = \<lparr>topic_slug = Some ''javascript'', answers = Some tieAnswers,
              total_time = None\<rparr>\<rparr>"

section \<open>Rounding to a double: correctness of the model\<close>

lemma round_half_even_bound: "\<bar>of_int (round_half_even y) - y\<bar> \<le> 1 / 2"
proof -
  have "of_int \<lfloor>y\<rfloor> \<le> y" "y < of_int \<lfloor>y\<rfloor> + 1"
    by linarith+
  then show ?thesis
    unfolding round_half_even_def Let_def by (auto simp: abs_le_iff)
qed

lemma round_half_even_eqI:
  assumes "\<bar>of_int m - y\<bar> < 1 / 2 \<or> (\<bar>of_int m - y\<bar> = 1 / 2 \<and> even m)"
  shows "round_half_even y = m"
proof (cases "of_int m \<le> y")
  case True
  with assms have "y < of_int m + 1" by (auto simp: abs_if split: if_splits)
  with True have f: "\<lfloor>y\<rfloor> = m" by linarith
  show ?thesis
    using assms True unfolding round_half_even_def Let_def f
    by (auto simp: abs_if split: if_splits)
next
  case False
  with assms have "of_int (m - 1) \<le> y" "y < of_int (m - 1) + 1"
    by (auto simp: abs_if split: if_splits)
  then have f: "\<lfloor>y\<rfloor> = m - 1" by linarith
  show ?thesis
    using assms False unfolding round_half_even_def Let_def f
    by (auto simp: abs_if split: if_splits)
qed

lemma binade_bounds:
  assumes "0 < q"
  shows "2 powi (binade q) \<le> q" and "q < 2 powi (binade q + 1)"
proof -
  obtain a b where ab: "quotient_of q = (a, b)" by (cases "quotient_of q")
  then have b: "0 < b" by (rule quotient_of_denom_pos)
  from ab have q: "q = of_int a / of_int b" by (rule quotient_of_div)
  with assms b have a: "0 < a" by (simp add: zero_less_divide_iff)
  define la where "la = floorlog 2 (nat a)"
  define lb where "lb = floorlog 2 (nat b)"
  define d where "d = int la - int lb"
  from a have "2 ^ (la - 1) \<le> nat a" "nat a < 2 ^ la"
    using floorlog_bounds [of "nat a" 2] by (simp_all add: la_def)
  then have "int (2 ^ (la - 1)) \<le> a" "a < int (2 ^ la)"
    using a by linarith+
  then have A: "(2::rat) ^ (la - 1) \<le> of_int a" "(of_int a :: rat) < 2 ^ la"
    by (metis of_int_le_iff of_int_of_nat_eq of_nat_numeral of_nat_power,
        metis of_int_less_iff of_int_of_nat_eq of_nat_numeral of_nat_power)
  from b have "2 ^ (lb - 1) \<le> nat b" "nat b < 2 ^ lb"
    using floorlog_bounds [of "nat b" 2] by (simp_all add: lb_def)
  then have "int (2 ^ (lb - 1)) \<le> b" "b < int (2 ^ lb)"
    using b by linarith+
  then have B: "(2::rat) ^ (lb - 1) \<le> of_int b" "(of_int b :: rat) < 2 ^ lb"
    by (metis of_int_le_iff of_int_of_nat_eq of_nat_numeral of_nat_power,
        metis of_int_less_iff of_int_of_nat_eq of_nat_numeral of_nat_power)
  have la: "0 < la" using a floorlog_eq_zero_iff [of 2 "nat a"] by (auto simp: la_def)
  have lb: "0 < lb" using b floorlog_eq_zero_iff [of 2 "nat b"] by (auto simp: lb_def)
  have bin: "binade q = (if 2 powi d \<le> q then d else d - 1)"
    by (simp add: binade_def ab la_def lb_def d_def Let_def)
  have up: "q < 2 powi (d + 1)"
  proof -
    have "d + 1 = int la - int (lb - 1)" using lb by (simp add: d_def)
    then have "(2::rat) powi (d + 1) = 2 ^ la / 2 ^ (lb - 1)"
      by (simp add: power_int_diff)
    moreover have "of_int a / of_int b < (2::rat) ^ la / 2 ^ (lb - 1)"
      using A(2) B(1) a by (intro frac_less) simp_all
    ultimately show ?thesis by (simp add: q)
  qed
  have low: "2 powi (d - 1) \<le> q"
  proof -
    have "d - 1 = int (la - 1) - int lb" using la by (simp add: d_def)
    then have "(2::rat) powi (d - 1) = 2 ^ (la - 1) / 2 ^ lb"
      by (simp add: power_int_diff)
    moreover have "(2::rat) ^ (la - 1) / 2 ^ lb \<le> of_int a / of_int b"
      using A(1) B(2) b a by (intro frac_le) simp_all
    ultimately show ?thesis by (simp add: q)
  qed
  show "2 powi (binade q) \<le> q"
    using low by (simp add: bin)
  show "q < 2 powi (binade q + 1)"
    using up by (auto simp: bin)
qed

lemma binade_unique:
  assumes "0 < q" "2 powi e \<le> q" "q < 2 powi (e + 1)"
  shows "binade q = e"
proof -
  have "(2::rat) powi (binade q) < 2 powi (e + 1)"
    using binade_bounds(1) [OF assms(1)] assms(3) by simp
  then have "binade q < e + 1"
    by (metis linorder_not_less power_int_increasing one_le_numeral)
  moreover have "(2::rat) powi e < 2 powi (binade q + 1)"
    using binade_bounds(2) [OF assms(1)] assms(2) by simp
  then have "e < binade q + 1"
    by (metis linorder_not_less power_int_increasing one_le_numeral)
  ultimately show ?thesis by simp
qed

lemma round_double_eqI:
  assumes "0 < q" and "2 ^ 52 \<le> q * 2 ^ k" and "q * 2 ^ k < 2 ^ 53"
    and "\<bar>of_int m - q * 2 ^ k\<bar> < 1 / 2 \<or> (\<bar>of_int m - q * 2 ^ k\<bar> = 1 / 2 \<and> even m)"
  shows "round_double q = of_int m / 2 ^ k"
proof -
  have p: "(2::rat) powi (52 - int k) = 2 ^ 52 / 2 ^ k"
    by (simp add: power_int_diff)
  have p1: "(2::rat) powi (52 - int k + 1) = 2 ^ 53 / 2 ^ k"
  proof -
    have "52 - int k + 1 = 53 - int k" by simp
    then show ?thesis by (simp add: power_int_diff)
  qed
  have "binade q = 52 - int k"
  proof (rule binade_unique [OF assms(1)])
    show "2 powi (52 - int k) \<le> q"
      unfolding p using assms(2) by (simp add: divide_le_eq)
    show "q < 2 powi (52 - int k + 1)"
      unfolding p1 using assms(3) by (simp add: less_divide_eq)
  qed
  then have u: "(2::rat) powi (binade q - 52) = 1 / 2 ^ k"
    by (simp add: power_int_minus_divide)
  have m: "round_half_even (q * 2 ^ k) = m"
    using assms(4) by (rule round_half_even_eqI)
  have "round_double q = sgn q * of_int (round_half_even (\<bar>q\<bar> / (2 powi (binade \<bar>q\<bar> - 52))))
          * (2 powi (binade \<bar>q\<bar> - 52))"
    using assms(1) by (simp add: round_double_def Let_def)
  also have "\<bar>q\<bar> = q" using assms(1) by simp
  also have "sgn q = 1" using assms(1) by simp
  finally show ?thesis
    by (simp add: u m)
qed

lemma round_double_error:
  assumes "0 < q"
  shows "\<bar>round_double q - q\<bar> \<le> q / 2 ^ 53"
proof -
  define u :: rat where "u = 2 powi (binade q - 52)"
  have u: "0 < u" by (simp add: u_def)
  have rd: "round_double q = of_int (round_half_even (q / u)) * u"
    using assms by (simp add: round_double_def u_def Let_def)
  have "\<bar>of_int (round_half_even (q / u)) - q / u\<bar> \<le> 1 / 2"
    by (rule round_half_even_bound)
  then have "\<bar>of_int (round_half_even (q / u)) - q / u\<bar> * u \<le> 1 / 2 * u"
    using u by (intro mult_right_mono) simp_all
  moreover have "\<bar>of_int (round_half_even (q / u)) - q / u\<bar> * u = \<bar>round_double q - q\<bar>"
  proof -
    have "\<bar>of_int (round_half_even (q / u)) - q / u\<bar> * u =
          \<bar>(of_int (round_half_even (q / u)) - q / u) * u\<bar>"
      using u by (simp add: abs_mult)
    also have "(of_int (round_half_even (q / u)) - q / u) * u = round_double q - q"
      using u by (simp add: rd algebra_simps)
    finally show ?thesis .
  qed
  moreover have "1 / 2 * u \<le> q / 2 ^ 53"
  proof -
    have "binade q - 52 = binade q - 53 + 1" by simp
    have "u = 2 powi (binade q) / 2 ^ 52"
      by (simp add: u_def power_int_diff)
    then have "1 / 2 * u = 2 powi (binade q) / 2 ^ 53" by simp
    also have "\<dots> \<le> q / 2 ^ 53"
      using binade_bounds(1) [OF assms] by (simp add: divide_right_mono)
    finally show ?thesis .
  qed
  ultimately show ?thesis by simp
qed

lemma round_double_nonneg: "0 \<le> q \<Longrightarrow> 0 \<le> round_double q"
proof (cases "q = 0")
  case True
  then show ?thesis by (simp add: round_double_def)
next
  case False
  assume "0 \<le> q"
  with False have q: "0 < q" by simp
  from round_double_error [OF q] have "q - round_double q \<le> q / 2 ^ 53"
    by linarith
  moreover have "q / 2 ^ 53 \<le> q" using q by simp
  ultimately show ?thesis by linarith
qed

lemma double_percentage_error:
  assumes "0 \<le> x" and "x \<le> 1"
  shows "\<bar>round_double (round_double x * 100) - 100 * x\<bar> \<le> 300 / 2 ^ 53"
proof (cases "x = 0")
  case True
  then show ?thesis by (simp add: round_double_def)
next
  case False
  with assms have x: "0 < x" by simp
  define x1 where "x1 = round_double x"
  define d :: rat where "d = 1 / 2 ^ 53"
  have d: "0 < d" "d \<le> 1" by (simp_all add: d_def)
  have e1: "\<bar>x1 - x\<bar> \<le> x * d"
    using round_double_error [OF x] by (simp add: x1_def d_def)
  have xd: "x * d \<le> d" using assms(2) d(1) by simp
  have x1_le: "x1 \<le> 1 + d" using e1 xd assms(2) by linarith
  have "x - x * d \<le> x1" using e1 by linarith
  moreover have "0 < x - x * d"
  proof -
    have "x * d < x * 1" using x by (intro mult_strict_left_mono) (simp_all add: d_def)
    then show ?thesis by simp
  qed
  ultimately have x1: "0 < x1" by linarith
  then have x100: "0 < x1 * 100" by simp
  have e2: "\<bar>round_double (x1 * 100) - x1 * 100\<bar> \<le> x1 * 100 * d"
    using round_double_error [OF x100] by (simp add: d_def)
  have "x1 * 100 * d \<le> (1 + d) * 100 * d"
    using x1_le d(1) by (intro mult_right_mono) simp_all
  also have "\<dots> \<le> 200 * d"
    using d by (simp add: d_def)
  finally have e2': "\<bar>round_double (x1 * 100) - x1 * 100\<bar> \<le> 200 * d"
    using e2 by linarith
  have "\<bar>x1 * 100 - 100 * x\<bar> \<le> 100 * d"
    using e1 xd by linarith
  with e2' have "\<bar>round_double (x1 * 100) - 100 * x\<bar> \<le> 300 * d"
    by linarith
  then show ?thesis by (simp add: x1_def d_def)
qed

lemma nearest_hundredth:
  assumes "0 < n" and "n < 2 ^ 32" and "0 \<le> y"
    and "\<bar>y - 100 * of_nat k / of_nat n\<bar> \<le> 300 / 2 ^ 53"
  shows "\<bar>rat_of_int (toFixed2 y) - 10000 * of_nat k / of_nat n\<bar> \<le> 1 / 2"
proof -
  define t :: rat where "t = 10000 * of_nat k / of_nat n"
  define m where "m = toFixed2 y"
  have n: "(0::rat) < of_nat n" using assms(1) by simp
  have nb: "(of_nat n :: rat) < 2 ^ 32"
    using assms(2) by (metis of_nat_less_iff of_nat_numeral of_nat_power)
  have "m = \<lfloor>y * 100 + 1 / 2\<rfloor>"
    using assms(3) by (simp add: m_def toFixed2_def)
  then have fl: "of_int m \<le> y * 100 + 1 / 2" "y * 100 + 1 / 2 < of_int m + 1"
    by linarith+
  have eq0: "y * 100 - t = (y - 100 * of_nat k / of_nat n) * 100"
    by (simp add: t_def algebra_simps)
  have "\<bar>y * 100 - t\<bar> = \<bar>y - 100 * of_nat k / of_nat n\<bar> * 100"
    unfolding eq0 by (simp only: abs_mult abs_numeral)
  also have "\<dots> \<le> 300 / 2 ^ 53 * 100"
    using assms(4) by (intro mult_right_mono) simp_all
  finally have err: "\<bar>y * 100 - t\<bar> \<le> 30000 / 2 ^ 53"
    by simp
  have gap: "1 / (2 * of_nat n) > (30000 :: rat) / 2 ^ 53"
  proof -
    have "(30000 :: rat) / 2 ^ 53 < 1 / 2 ^ 33" by simp
    also have "\<dots> < 1 / (2 * of_nat n)"
      using n nb by (intro divide_strict_left_mono) simp_all
    finally show ?thesis .
  qed
  have up: "t - of_int m \<le> 1 / 2"
  proof (rule ccontr)
    assume "\<not> t - of_int m \<le> 1 / 2"
    then have pos: "0 < t - of_int m - 1 / 2" by simp
    have eq: "(t - of_int m - 1 / 2) * (2 * of_nat n) =
              of_int (20000 * int k - (2 * m + 1) * int n)"
      using n by (simp add: t_def field_simps)
    from pos n have "0 < (t - of_int m - 1 / 2) * (2 * of_nat n)" by simp
    then have "(0::rat) < of_int (20000 * int k - (2 * m + 1) * int n)"
      unfolding eq .
    then have "1 \<le> 20000 * int k - (2 * m + 1) * int n" by linarith
    then have "(1::rat) \<le> of_int (20000 * int k - (2 * m + 1) * int n)"
      by (metis of_int_1_le_iff)
    then have "1 \<le> (t - of_int m - 1 / 2) * (2 * of_nat n)"
      unfolding eq .
    then have "1 / (2 * of_nat n) \<le> t - of_int m - 1 / 2"
      using n by (simp add: divide_le_eq)
    with gap fl(2) err show False by linarith
  qed
  have low: "of_int m - t \<le> 1 / 2"
  proof (rule ccontr)
    assume "\<not> of_int m - t \<le> 1 / 2"
    then have pos: "0 < of_int m - 1 / 2 - t" by simp
    have eq: "(of_int m - 1 / 2 - t) * (2 * of_nat n) =
              of_int ((2 * m - 1) * int n - 20000 * int k)"
      using n by (simp add: t_def field_simps)
    from pos n have "0 < (of_int m - 1 / 2 - t) * (2 * of_nat n)" by simp
    then have "(0::rat) < of_int ((2 * m - 1) * int n - 20000 * int k)"
      unfolding eq .
    then have "1 \<le> (2 * m - 1) * int n - 20000 * int k" by linarith
    then have "(1::rat) \<le> of_int ((2 * m - 1) * int n - 20000 * int k)"
      by (metis of_int_1_le_iff)
    then have "1 \<le> (of_int m - 1 / 2 - t) * (2 * of_nat n)"
      unfolding eq .
    then have "1 / (2 * of_nat n) \<le> of_int m - 1 / 2 - t"
      using n by (simp add: divide_le_eq)
    with gap fl(1) err show False by linarith
  qed
  from up low show ?thesis
    unfolding t_def m_def by linarith
qed

lemma percentage_rounding:
  assumes "k \<le> n" and "0 < n" and "n < 2 ^ 32"
  shows "\<exists>m. parseFloat_toFixed2 (js_mul (js_div k n) 100) = Num (round_double (of_int m / 100)) \<and>
           \<bar>rat_of_int m / 100 - 100 * of_nat k / of_nat n\<bar> \<le> 1 / 200"
proof -
  define x :: rat where "x = of_nat k / of_nat n"
  define y where "y = round_double (round_double x * 100)"
  have x: "0 \<le> x" "x \<le> 1"
    using assms(1,2) by (simp_all add: x_def)
  have "\<bar>y - 100 * x\<bar> \<le> 300 / 2 ^ 53"
    unfolding y_def using x by (rule double_percentage_error)
  then have "\<bar>y - 100 * of_nat k / of_nat n\<bar> \<le> 300 / 2 ^ 53"
    by (simp add: x_def)
  have "0 \<le> y"
    unfolding y_def using x(1) by (intro round_double_nonneg mult_nonneg_nonneg) simp_all
  from nearest_hundredth [OF assms(2,3) this \<open>\<bar>y - 100 * of_nat k / of_nat n\<bar> \<le> 300 / 2 ^ 53\<close>]
  have "\<bar>rat_of_int (toFixed2 y) - 10000 * of_nat k / of_nat n\<bar> \<le> 1 / 2" .
  then have "\<bar>rat_of_int (toFixed2 y) / 100 - 100 * of_nat k / of_nat n\<bar> \<le> 1 / 200"
    by (simp add: abs_le_iff field_simps)
  moreover have "parseFloat_toFixed2 (js_mul (js_div k n) 100) =
      Num (round_double (of_int (toFixed2 y) / 100))"
    using assms(2) by (simp add: js_div_def y_def x_def)
  ultimately show ?thesis by blast
qed

subsection \<open>The percentages of the concrete requests\<close>

lemma rd_third: "round_double (1 / 3) = 6004799503160661 / 2 ^ 54"
  using round_double_eqI [of "1 / 3" 54 6004799503160661] by simp

lemma rd_third_100: "round_double (6004799503160661 / 2 ^ 54 * 100) = 4691249611844266 / 2 ^ 47"
  using round_double_eqI [of "6004799503160661 / 2 ^ 54 * 100" 47 4691249611844266] by simp

lemma percentage_1_3: "percentageOf 1 3 = Num (2345624805922133 / 70368744177664)"
proof -
  have "percentageOf 1 3 = Num (round_double (round_double (1 / 3) * 100))"
    by (simp add: js_div_def)
  also have "\<dots> = Num (round_double (6004799503160661 / 2 ^ 54 * 100))"
    by (simp only: rd_third)
  also have "\<dots> = Num (4691249611844266 / 2 ^ 47)"
    by (simp only: rd_third_100)
  also have "\<dots> = Num (2345624805922133 / 70368744177664)"
    by simp
  finally show ?thesis .
qed

lemma toFixed2_33: "toFixed2 (2345624805922133 / 70368744177664) = 3333"
proof -
  have "\<lfloor>(2345624805922133 / 70368744177664 :: rat) * 100 + 1 / 2\<rfloor> = 3333"
    by (rule floor_unique) simp_all
  then show ?thesis by (simp add: toFixed2_def)
qed

lemma rd_3333: "round_double (3333 / 100) = 4690780486883082 / 2 ^ 47"
  using round_double_eqI [of "3333 / 100" 47 4690780486883082] by simp

lemma shown_1_3:
  "parseFloat_toFixed2 (percentageOf 1 3) = Num (2345390243441541 / 70368744177664)"
proof -
  have "parseFloat_toFixed2 (percentageOf 1 3) = Num (round_double (of_int 3333 / 100))"
    by (simp only: percentage_1_3 parseFloat_toFixed2.simps toFixed2_33)
  also have "\<dots> = Num (4690780486883082 / 2 ^ 47)"
    using rd_3333 by simp
  also have "\<dots> = Num (2345390243441541 / 70368744177664)"
    by simp
  finally show ?thesis .
qed

lemma rd_23_160: "round_double (23 / 160) = 5179139571476070 / 2 ^ 55"
  using round_double_eqI [of "23 / 160" 55 5179139571476070] by simp

lemma rd_23_160_100:
  "round_double (5179139571476070 / 2 ^ 55 * 100) = 8092405580431359 / 2 ^ 49"
  using round_double_eqI [of "5179139571476070 / 2 ^ 55 * 100" 49 8092405580431359] by simp

lemma percentage_23_160: "percentageOf 23 160 = Num (8092405580431359 / 2 ^ 49)"
proof -
  have "percentageOf 23 160 = Num (round_double (round_double (23 / 160) * 100))"
    by (simp add: js_div_def)
  also have "\<dots> = Num (round_double (5179139571476070 / 2 ^ 55 * 100))"
    by (simp only: rd_23_160)
  also have "\<dots> = Num (8092405580431359 / 2 ^ 49)"
    by (simp only: rd_23_160_100)
  finally show ?thesis .
qed

lemma toFixed2_1437: "toFixed2 (8092405580431359 / 2 ^ 49) = 1437"
proof -
  have "\<lfloor>(8092405580431359 / 2 ^ 49 :: rat) * 100 + 1 / 2\<rfloor> = 1437"
    by (rule floor_unique) simp_all
  then show ?thesis by (simp add: toFixed2_def)
qed

lemma rd_1437: "round_double (1437 / 100) = 8089590830664253 / 2 ^ 49"
  using round_double_eqI [of "1437 / 100" 49 8089590830664253] by simp

lemma rd_1438: "round_double (1438 / 100) = 8095220330198467 / 2 ^ 49"
  using round_double_eqI [of "1438 / 100" 49 8095220330198467] by simp

lemma shown_23_160:
  "parseFloat_toFixed2 (percentageOf 23 160) = Num (8089590830664253 / 2 ^ 49)"
proof -
  have "parseFloat_toFixed2 (percentageOf 23 160) = Num (round_double (of_int 1437 / 100))"
    by (simp only: percentage_23_160 parseFloat_toFixed2.simps toFixed2_1437)
  also have "\<dots> = Num (8089590830664253 / 2 ^ 49)"
    using rd_1437 by simp
  finally show ?thesis .
qed

lemma spec_rounds_23_160:
  "spec_round2_half_away (100 * 23 / 160) = 1438 / 100"
  "spec_round2_half_even (100 * 23 / 160) = 1438 / 100"
proof -
  have "\<lfloor>(2875 / 2 :: rat) + 1 / 2\<rfloor> = 1438"
    by (rule floor_unique) simp_all
  then show "spec_round2_half_away (100 * 23 / 160) = 1438 / 100"
    by (simp add: spec_round2_half_away_def)
  have "round_half_even (2875 / 2) = 1438"
    by (rule round_half_even_eqI) simp
  then show "spec_round2_half_even (100 * 23 / 160) = 1438 / 100"
    by (simp add: spec_round2_half_even_def)
qed

lemma percentage_of_ratio:
  assumes "0 < n" and "of_nat k / of_nat n = (q :: rat)"
  shows "percentageOf k n = Num (round_double (round_double q * 100))"
  using assms by (simp add: js_div_def)

lemma ratio_eq:
  assumes "0 < n" and "b * k = a * n" and "0 < b"
  shows "(of_nat k / of_nat n :: rat) = of_nat a / of_nat b"
proof -
  have "(of_nat b * of_nat k :: rat) = of_nat a * of_nat n"
    using assms(2) by (metis of_nat_mult)
  then show ?thesis
    using assms(1,3) by (simp add: field_simps)
qed

lemma rd_boundaries:
  "round_double (round_double (9 / 10) * 100) = 90"
  "round_double (round_double (4 / 5) * 100) = 80"
  "round_double (round_double (7 / 10) * 100) = 70"
  "round_double (round_double (3 / 5) * 100) = 60"
  "round_double (round_double (1 / 2) * 100) = 50"
  "round_double (round_double (2 / 5) * 100) = 40"
proof -
  have a: "round_double (9 / 10) = 8106479329266893 / 2 ^ 53"
    using round_double_eqI [of "9 / 10" 53 8106479329266893] by simp
  have a': "round_double (8106479329266893 / 2 ^ 53 * 100) = 6333186975989760 / 2 ^ 46"
    using round_double_eqI [of "8106479329266893 / 2 ^ 53 * 100" 46 6333186975989760] by simp
  show "round_double (round_double (9 / 10) * 100) = 90"
    unfolding a a' by simp
  have b: "round_double (4 / 5) = 7205759403792794 / 2 ^ 53"
    using round_double_eqI [of "4 / 5" 53 7205759403792794] by simp
  have b': "round_double (7205759403792794 / 2 ^ 53 * 100) = 5629499534213120 / 2 ^ 46"
    using round_double_eqI [of "7205759403792794 / 2 ^ 53 * 100" 46 5629499534213120] by simp
  show "round_double (round_double (4 / 5) * 100) = 80"
    unfolding b b' by simp
  have c: "round_double (7 / 10) = 6305039478318694 / 2 ^ 53"
    using round_double_eqI [of "7 / 10" 53 6305039478318694] by simp
  have c': "round_double (6305039478318694 / 2 ^ 53 * 100) = 4925812092436480 / 2 ^ 46"
    using round_double_eqI [of "6305039478318694 / 2 ^ 53 * 100" 46 4925812092436480] by simp
  show "round_double (round_double (7 / 10) * 100) = 70"
    unfolding c c' by simp
  have d: "round_double (3 / 5) = 5404319552844595 / 2 ^ 53"
    using round_double_eqI [of "3 / 5" 53 5404319552844595] by simp
  have d': "round_double (5404319552844595 / 2 ^ 53 * 100) = 8444249301319680 / 2 ^ 47"
    using round_double_eqI [of "5404319552844595 / 2 ^ 53 * 100" 47 8444249301319680] by simp
  show "round_double (round_double (3 / 5) * 100) = 60"
    unfolding d d' by simp
  have e: "round_double (1 / 2) = 4503599627370496 / 2 ^ 53"
    using round_double_eqI [of "1 / 2" 53 4503599627370496] by simp
  have e': "round_double (4503599627370496 / 2 ^ 53 * 100) = 7036874417766400 / 2 ^ 47"
    using round_double_eqI [of "4503599627370496 / 2 ^ 53 * 100" 47 7036874417766400] by simp
  show "round_double (round_double (1 / 2) * 100) = 50"
    unfolding e e' by simp
  have f: "round_double (2 / 5) = 7205759403792794 / 2 ^ 54"
    using round_double_eqI [of "2 / 5" 54 7205759403792794] by simp
  have f': "round_double (7205759403792794 / 2 ^ 54 * 100) = 5629499534213120 / 2 ^ 47"
    using round_double_eqI [of "7205759403792794 / 2 ^ 54 * 100" 47 5629499534213120] by simp
  show "round_double (round_double (2 / 5) * 100) = 40"
    unfolding f f' by simp
qed

text \<open>
  The floating-point computation does not miss a boundary: a score that is exactly nine
  tenths, four fifths, seven tenths, three fifths, one half or two fifths of the number
  of answers gives exactly the percentage 90, 80, 70, 60, 50 or 40, and with it the
  higher grade.
\<close>

lemma boundary_scores:
  assumes "0 < n"
  shows "10 * k = 9 * n \<Longrightarrow> percentageOf k n = Num 90"
    and "5 * k = 4 * n \<Longrightarrow> percentageOf k n = Num 80"
    and "10 * k = 7 * n \<Longrightarrow> percentageOf k n = Num 70"
    and "5 * k = 3 * n \<Longrightarrow> percentageOf k n = Num 60"
    and "2 * k = 1 * n \<Longrightarrow> percentageOf k n = Num 50"
    and "5 * k = 2 * n \<Longrightarrow> percentageOf k n = Num 40"
proof -
  note at = percentage_of_ratio [OF assms ratio_eq [OF assms]]
  show "10 * k = 9 * n \<Longrightarrow> percentageOf k n = Num 90"
    using at [of 10 k 9] by (simp add: rd_boundaries)
  show "5 * k = 4 * n \<Longrightarrow> percentageOf k n = Num 80"
    using at [of 5 k 4] by (simp add: rd_boundaries)
  show "10 * k = 7 * n \<Longrightarrow> percentageOf k n = Num 70"
    using at [of 10 k 7] by (simp add: rd_boundaries)
  show "5 * k = 3 * n \<Longrightarrow> percentageOf k n = Num 60"
    using at [of 5 k 3] by (simp add: rd_boundaries)
  show "2 * k = 1 * n \<Longrightarrow> percentageOf k n = Num 50"
    using at [of 2 k 1] by (simp add: rd_boundaries)
  show "5 * k = 2 * n \<Longrightarrow> percentageOf k n = Num 40"
    using at [of 5 k 2] by (simp add: rd_boundaries)
qed

section \<open>The lookup, the scoring loop and the inserts\<close>

lemma foldl_questionMap_None:
  "foldl (\<lambda>m q. m(q_id q \<mapsto> q)) m0 qs k = None \<longleftrightarrow> m0 k = None \<and> k \<notin> q_id ` set qs"
  by (induction qs arbitrary: m0) auto

lemma foldl_questionMap_Some:
  "foldl (\<lambda>m q. m(q_id q \<mapsto> q)) m0 qs k = Some q \<Longrightarrow>
     m0 k = Some q \<or> (q \<in> set qs \<and> q_id q = k)"
proof (induction qs arbitrary: m0)
  case Nil
  then show ?case by simp
next
  case (Cons a qs)
  from Cons.prems have "foldl (\<lambda>m q. m(q_id q \<mapsto> q)) (m0(q_id a \<mapsto> a)) qs k = Some q"
    unfolding foldl_Cons .
  from Cons.IH [OF this]
  have "(m0(q_id a \<mapsto> a)) k = Some q \<or> (q \<in> set qs \<and> q_id q = k)" .
  then show ?case
    by (cases "k = q_id a") auto
qed

lemma questionMapOf_None: "questionMapOf qs k = None \<longleftrightarrow> k \<notin> q_id ` set qs"
  by (simp add: questionMapOf_def foldl_questionMap_None)

lemma questionMapOf_Some: "questionMapOf qs k = Some q \<Longrightarrow> q \<in> set qs \<and> q_id q = k"
  using foldl_questionMap_Some [of Map.empty qs k q] by (simp add: questionMapOf_def)

lemma scoreLoop_eq:
  "scoreLoop m as c ds =
     (c + length (filter (\<lambda>a. case m (a_question_id a) of None \<Rightarrow> False
                               | Some q \<Rightarrow> a_selected_answer a = q_correct_answer q) as),
      ds @ map (\<lambda>a. detailOf a (the (m (a_question_id a))))
             (filter (\<lambda>a. m (a_question_id a) \<noteq> None) as))"
  by (induction as arbitrary: c ds) (auto split: option.splits)

lemma saveAnswers_None:
  "saveAnswers gen i aid ds s = (None, s') \<Longrightarrow>
     topics s' = topics s \<and> questions s' = questions s \<and> quiz_attempts s' = quiz_attempts s \<and>
     (\<exists>rows. user_answers s' = user_answers s @ rows \<and>
        length rows = length ds \<and>
        (\<forall>ua \<in> set rows. ua_attempt_id ua = aid) \<and>
        map ua_id rows = map gen [i..<i + length ds] \<and>
        map ua_question_id rows = map da_question_id ds \<and>
        map ua_is_correct rows = map da_is_correct ds)"
proof (induction ds arbitrary: i s)
  case Nil
  then show ?case by simp
next
  case (Cons d ds)
  let ?row = "\<lparr>ua_id = gen i, ua_attempt_id = aid, ua_question_id = da_question_id d,
        ua_selected_answer = da_selected_answer d, ua_is_correct = da_is_correct d,
        ua_time_taken = da_time_taken d\<rparr>"
  from Cons.prems obtain row s1 where
    ins: "saveUserAnswer (gen i) aid (da_question_id d) (da_selected_answer d)
            (da_is_correct d) (da_time_taken d) s = Inr (row, s1)"
    and rest: "saveAnswers gen (Suc i) aid ds s1 = (None, s')"
    by (auto split: sum.splits)
  from ins have s1: "s1 = s\<lparr>user_answers := user_answers s @ [?row]\<rparr>"
    by (auto simp: saveUserAnswer_def Let_def split: if_splits)
  have up: "[i..<i + length (d # ds)] = i # [Suc i..<Suc i + length ds]"
    by (simp add: upt_rec)
  from Cons.IH [OF rest] obtain rows where
    st: "topics s' = topics s1" "questions s' = questions s1" "quiz_attempts s' = quiz_attempts s1"
    and rows: "user_answers s' = user_answers s1 @ rows"
      "length rows = length ds"
      "\<forall>ua \<in> set rows. ua_attempt_id ua = aid"
      "map ua_id rows = map gen [Suc i..<Suc i + length ds]"
      "map ua_question_id rows = map da_question_id ds"
      "map ua_is_correct rows = map da_is_correct ds"
    by blast
  have 1: "user_answers s' = user_answers s @ (?row # rows)"
    using rows(1) by (simp add: s1)
  have 2: "map ua_id (?row # rows) = map gen [i..<i + length (d # ds)]"
    unfolding up using rows(4) by simp
  have 3: "length (?row # rows) = length (d # ds)"
    using rows(2) by simp
  have 4: "\<forall>ua \<in> set (?row # rows). ua_attempt_id ua = aid"
    using rows(3) by simp
  have 5: "map ua_question_id (?row # rows) = map da_question_id (d # ds)"
    using rows(5) by simp
  have 6: "map ua_is_correct (?row # rows) = map da_is_correct (d # ds)"
    using rows(6) by simp
  have 7: "topics s' = topics s" "questions s' = questions s" "quiz_attempts s' = quiz_attempts s"
    using st by (simp_all add: s1)
  from 1 2 3 4 5 6 7 show ?case by blast
qed

subsection \<open>The query by identifiers\<close>

lemma getQuestionsByIds_Inr:
  "getQuestionsByIds ids s = Inr qs \<longleftrightarrow>
     None \<notin> uuid_in ` set ids \<and>
     qs = filter (\<lambda>q. uuid_in (q_id q) \<in> uuid_in ` set ids) (questions s)"
  by (auto simp: getQuestionsByIds_def)

lemma getQuestionsByIds_Inl:
  "getQuestionsByIds ids s = Inl e \<longleftrightarrow>
     None \<in> uuid_in ` set ids \<and> e = InvalidTextRepresentation"
  by (auto simp: getQuestionsByIds_def)

lemma getQuestionsByIds_Nil: "getQuestionsByIds [] s = Inr []"
  by (simp add: getQuestionsByIds_def)

lemma getQuestionsByIds_total:
  "None \<notin> uuid_in ` set ids \<Longrightarrow> \<exists>qs. getQuestionsByIds ids s = Inr qs"
  by (simp add: getQuestionsByIds_def)

text \<open>A requested text is the id of a returned row exactly when it is the id of a row
  of the table.\<close>

lemma fetched_ids:
  assumes "getQuestionsByIds ids s = Inr qs" and "i \<in> set ids"
  shows "i \<in> q_id ` set qs \<longleftrightarrow> i \<in> q_id ` set (questions s)"
  using assms by (auto simp: getQuestionsByIds_Inr)

subsection \<open>The shape of a successful submission\<close>

lemma submitQuiz_Json200:
  assumes "submitQuiz gen req s = (Json200 r, s')"
  obtains userId slug as topic where
    "user req = Some userId"
    "topic_slug (body req) = Some slug" "slug \<noteq> []"
    "answers (body req) = Some as"
    "getTopicBySlug slug s = Some topic"
    "\<exists>qs. getQuestionsByIds (map a_question_id as) s = Inr qs"
    "gen 0 \<notin> qa_id ` set (quiz_attempts s)"
    "r = \<lparr>r_attempt_id = gen 0,
          r_score = fst (scoreLoop (questionMapFor as s) as 0 []),
          r_total_questions = length as,
          r_percentage = parseFloat_toFixed2 (js_mul (js_div
             (fst (scoreLoop (questionMapFor as s) as 0 []))
             (length as)) 100),
          r_grade = fst (gradeFeedback (js_mul (js_div
             (fst (scoreLoop (questionMapFor as s) as 0 []))
             (length as)) 100)),
          r_feedback = snd (gradeFeedback (js_mul (js_div
             (fst (scoreLoop (questionMapFor as s) as 0 []))
             (length as)) 100)),
          r_time_taken = (case total_time (body req) of None \<Rightarrow> 0 | Some t \<Rightarrow> t),
          r_answers = snd (scoreLoop (questionMapFor as s) as 0 []),
          r_topic_analysis =
            \<lparr>ta_topic = t_name topic,
             ta_correct = fst (scoreLoop (questionMapFor as s) as 0 []),
             ta_total = length as,
             ta_percentage = js_mul (js_div
               (fst (scoreLoop (questionMapFor as s) as 0 []))
               (length as)) 100\<rparr>\<rparr>"
    "saveAnswers gen 1 (gen 0)
       (snd (scoreLoop (questionMapFor as s) as 0 []))
       (s\<lparr>quiz_attempts := quiz_attempts s @
          [\<lparr>qa_id = gen 0, qa_user_id = userId, qa_topic_id = t_id topic,
            qa_score = fst (scoreLoop (questionMapFor as s) as 0 []),
            qa_total_questions = length as,
            qa_percentage = js_mul (js_div
               (fst (scoreLoop (questionMapFor as s) as 0 []))
               (length as)) 100,
            qa_time_taken = (case total_time (body req) of None \<Rightarrow> 0 | Some t \<Rightarrow> t)\<rparr>]\<rparr>)
       = (None, s')"
  using assms
  unfolding submitQuiz_def createQuizAttempt_def Let_def
  by (auto split: option.splits if_splits sum.splits prod.splits)

lemma questionMapFor_None:
  assumes "a \<in> set as" and "getQuestionsByIds (map a_question_id as) s = Inr qs"
  shows "questionMapFor as s (a_question_id a) = None \<longleftrightarrow>
         a_question_id a \<notin> q_id ` set (questions s)"
proof -
  from assms(1) have "a_question_id a \<in> set (map a_question_id as)" by simp
  from fetched_ids [OF assms(2) this] show ?thesis
    by (simp add: assms(2) questionMapOf_None)
qed

lemma submit_fetched:
  assumes "submitQuiz gen req s = (Json200 r, s')" and "answers (body req) = Some as"
  shows "\<exists>qs. getQuestionsByIds (map a_question_id as) s = Inr qs"
    and "None \<notin> uuid_in ` a_question_id ` set as"
proof -
  from assms show "\<exists>qs. getQuestionsByIds (map a_question_id as) s = Inr qs"
    by (auto elim!: submitQuiz_Json200)
  then show "None \<notin> uuid_in ` a_question_id ` set as"
    by (simp add: getQuestionsByIds_Inr)
qed

lemma submit_scoring:
  assumes "submitQuiz gen req s = (Json200 r, s')" and "answers (body req) = Some as"
  shows "r_total_questions r = length as"
    and "r_score r = fst (scoreLoop (questionMapFor as s) as 0 [])"
    and "r_answers r = snd (scoreLoop (questionMapFor as s) as 0 [])"
  using assms by (auto elim!: submitQuiz_Json200)

lemma submit_summary:
  assumes "submitQuiz gen req s = (Json200 r, s')"
  shows "r_percentage r = parseFloat_toFixed2 (percentageOf (r_score r) (r_total_questions r))"
    and "r_grade r = fst (gradeFeedback (percentageOf (r_score r) (r_total_questions r)))"
    and "r_feedback r = snd (gradeFeedback (percentageOf (r_score r) (r_total_questions r)))"
    and "ta_correct (r_topic_analysis r) = r_score r"
    and "ta_total (r_topic_analysis r) = r_total_questions r"
    and "ta_percentage (r_topic_analysis r) = percentageOf (r_score r) (r_total_questions r)"
  using assms by (auto elim!: submitQuiz_Json200)

lemma submit_persisted:
  assumes "submitQuiz gen req s = (Json200 r, s')"
  shows "r_attempt_id r = gen 0"
    and "gen 0 \<notin> qa_id ` set (quiz_attempts s)"
    and "\<exists>row. qa_id row = gen 0 \<and> qa_score row = r_score r \<and>
           qa_total_questions row = r_total_questions r \<and>
           qa_percentage row = percentageOf (r_score r) (r_total_questions r) \<and>
           saveAnswers gen 1 (gen 0) (r_answers r)
             (s\<lparr>quiz_attempts := quiz_attempts s @ [row]\<rparr>) = (None, s')"
proof -
  show "r_attempt_id r = gen 0" "gen 0 \<notin> qa_id ` set (quiz_attempts s)"
    using assms by (auto elim!: submitQuiz_Json200)
  from assms show "\<exists>row. qa_id row = gen 0 \<and> qa_score row = r_score r \<and>
           qa_total_questions row = r_total_questions r \<and>
           qa_percentage row = percentageOf (r_score r) (r_total_questions r) \<and>
           saveAnswers gen 1 (gen 0) (r_answers r)
             (s\<lparr>quiz_attempts := quiz_attempts s @ [row]\<rparr>) = (None, s')"
  proof (rule submitQuiz_Json200)
    fix userId slug as topic
    assume r: "r = \<lparr>r_attempt_id = gen 0,
          r_score = fst (scoreLoop (questionMapFor as s) as 0 []),
          r_total_questions = length as,
          r_percentage = parseFloat_toFixed2 (percentageOf
             (fst (scoreLoop (questionMapFor as s) as 0 [])) (length as)),
          r_grade = fst (gradeFeedback (percentageOf
             (fst (scoreLoop (questionMapFor as s) as 0 [])) (length as))),
          r_feedback = snd (gradeFeedback (percentageOf
             (fst (scoreLoop (questionMapFor as s) as 0 [])) (length as))),
          r_time_taken = (case total_time (body req) of None \<Rightarrow> 0 | Some t \<Rightarrow> t),
          r_answers = snd (scoreLoop (questionMapFor as s) as 0 []),
          r_topic_analysis =
            \<lparr>ta_topic = t_name topic,
             ta_correct = fst (scoreLoop (questionMapFor as s) as 0 []),
             ta_total = length as,
             ta_percentage = percentageOf
               (fst (scoreLoop (questionMapFor as s) as 0 [])) (length as)\<rparr>\<rparr>"
    assume sv: "saveAnswers gen 1 (gen 0)
       (snd (scoreLoop (questionMapFor as s) as 0 []))
       (s\<lparr>quiz_attempts := quiz_attempts s @
          [\<lparr>qa_id = gen 0, qa_user_id = userId, qa_topic_id = t_id topic,
            qa_score = fst (scoreLoop (questionMapFor as s) as 0 []),
            qa_total_questions = length as,
            qa_percentage = percentageOf
               (fst (scoreLoop (questionMapFor as s) as 0 [])) (length as),
            qa_time_taken = (case total_time (body req) of None \<Rightarrow> 0 | Some t \<Rightarrow> t)\<rparr>]\<rparr>)
       = (None, s')"
    show ?thesis
      by (rule exI [where x = "\<lparr>qa_id = gen 0, qa_user_id = userId, qa_topic_id = t_id topic,
            qa_score = fst (scoreLoop (questionMapFor as s) as 0 []),
            qa_total_questions = length as,
            qa_percentage = percentageOf
               (fst (scoreLoop (questionMapFor as s) as 0 [])) (length as),
            qa_time_taken = (case total_time (body req) of None \<Rightarrow> 0 | Some t \<Rightarrow> t)\<rparr>"])
         (use sv in \<open>simp add: r\<close>)
  qed
qed

lemma saveAnswers_succeeds:
  assumes "inj_on gen {i..<i + length ds}"
    and "\<forall>j \<in> {i..<i + length ds}. gen j \<notin> ua_id ` set (user_answers s)"
  shows "\<exists>s'. saveAnswers gen i aid ds s = (None, s')"
  using assms
proof (induction ds arbitrary: i s)
  case Nil
  then show ?case by simp
next
  case (Cons d ds)
  let ?row = "\<lparr>ua_id = gen i, ua_attempt_id = aid, ua_question_id = da_question_id d,
        ua_selected_answer = da_selected_answer d, ua_is_correct = da_is_correct d,
        ua_time_taken = da_time_taken d\<rparr>"
  let ?s1 = "s\<lparr>user_answers := user_answers s @ [?row]\<rparr>"
  have fresh: "gen i \<notin> ua_id ` set (user_answers s)"
    using Cons.prems(2) by simp
  then have ins: "saveUserAnswer (gen i) aid (da_question_id d) (da_selected_answer d)
            (da_is_correct d) (da_time_taken d) s = Inr (?row, ?s1)"
    by (simp add: saveUserAnswer_def Let_def)
  have sub: "{Suc i..<Suc i + length ds} \<subseteq> {i..<i + length (d # ds)}"
    by auto
  have inj: "inj_on gen {Suc i..<Suc i + length ds}"
    using Cons.prems(1) sub by (rule inj_on_subset)
  have "\<forall>j \<in> {Suc i..<Suc i + length ds}. gen j \<notin> ua_id ` set (user_answers ?s1)"
  proof
    fix j assume j: "j \<in> {Suc i..<Suc i + length ds}"
    then have "j \<in> {i..<i + length (d # ds)}" "i \<in> {i..<i + length (d # ds)}" "j \<noteq> i"
      by auto
    with Cons.prems(1) have "gen j \<noteq> gen i"
      by (auto dest: inj_onD)
    moreover from j Cons.prems(2) have "gen j \<notin> ua_id ` set (user_answers s)"
      by auto
    ultimately show "gen j \<notin> ua_id ` set (user_answers ?s1)" by auto
  qed
  from Cons.IH [OF inj this] obtain s' where "saveAnswers gen (Suc i) aid ds ?s1 = (None, s')"
    by blast
  with ins show ?case by simp
qed

lemma length_scoreLoop:
  "length (snd (scoreLoop m as 0 [])) \<le> length as"
  by (simp add: scoreLoop_eq)

lemma submitQuiz_succeeds:
  assumes "user req = Some userId"
    and "topic_slug (body req) = Some slug" and "slug \<noteq> []"
    and "answers (body req) = Some as"
    and "getTopicBySlug slug s = Some topic"
    and "gen 0 \<notin> qa_id ` set (quiz_attempts s)"
    and "inj_on gen {1..length as}"
    and "\<forall>j \<in> {1..length as}. gen j \<notin> ua_id ` set (user_answers s)"
    and "None \<notin> uuid_in ` a_question_id ` set as"
  shows "\<exists>r s'. submitQuiz gen req s = (Json200 r, s')"
proof -
  from assms(9) have "None \<notin> uuid_in ` set (map a_question_id as)" by simp
  from getQuestionsByIds_total [OF this] obtain qs where
    qs: "getQuestionsByIds (map a_question_id as) s = Inr qs" by blast
  define ds where "ds = snd (scoreLoop (questionMapFor as s) as 0 [])"
  define c where "c = fst (scoreLoop (questionMapFor as s) as 0 [])"
  define row where "row = \<lparr>qa_id = gen 0, qa_user_id = userId, qa_topic_id = t_id topic,
            qa_score = c, qa_total_questions = length as,
            qa_percentage = percentageOf c (length as),
            qa_time_taken = (case total_time (body req) of None \<Rightarrow> 0 | Some t \<Rightarrow> t)\<rparr>"
  define s1 where "s1 = s\<lparr>quiz_attempts := quiz_attempts s @ [row]\<rparr>"
  have len: "length ds \<le> length as"
    unfolding ds_def by (rule length_scoreLoop)
  then have sub: "{1..<1 + length ds} \<subseteq> {1..length as}" by auto
  have inj: "inj_on gen {1..<1 + length ds}"
    using assms(7) sub by (rule inj_on_subset)
  have fresh: "\<forall>j \<in> {1..<1 + length ds}. gen j \<notin> ua_id ` set (user_answers s1)"
    using assms(8) sub by (auto simp: s1_def)
  from saveAnswers_succeeds [OF inj fresh] obtain s' where
    sv: "saveAnswers gen 1 (gen 0) ds s1 = (None, s')" by blast
  have sl: "scoreLoop (questionMapFor as s) as 0 [] = (c, ds)"
    by (simp add: c_def ds_def)
  have cr: "createQuizAttempt (gen 0) userId (t_id topic) c (length as)
         (percentageOf c (length as))
         (case total_time (body req) of None \<Rightarrow> 0 | Some t \<Rightarrow> t) s = Inr (row, s1)"
    using assms(6) by (simp add: createQuizAttempt_def Let_def row_def s1_def)
  have "qa_id row = gen 0" by (simp add: row_def)
  then show ?thesis
    unfolding submitQuiz_def using sv
    by (simp add: assms(1-5) qs Let_def sl [unfolded qs sum.case] cr [unfolded qs sum.case]
          case_prod_unfold del: js_mul.simps One_nat_def)
qed

subsection \<open>What a submission leaves in the store\<close>

lemma getTopicBySlug_topics:
  "topics s' = topics s \<Longrightarrow> getTopicBySlug slug s' = getTopicBySlug slug s"
  by (simp add: getTopicBySlug_def)

lemma getQuestionsByIds_questions:
  "questions s' = questions s \<Longrightarrow> getQuestionsByIds ids s' = getQuestionsByIds ids s"
  by (simp add: getQuestionsByIds_def)

lemma submit_store:
  assumes "submitQuiz gen req s = (Json200 r, s')" and "answers (body req) = Some as"
  shows "topics s' = topics s" and "questions s' = questions s"
    and "\<exists>row. quiz_attempts s' = quiz_attempts s @ [row] \<and> qa_id row = gen 0 \<and>
           qa_score row = r_score r \<and> qa_total_questions row = r_total_questions r"
    and "ua_id ` set (user_answers s') \<subseteq> ua_id ` set (user_answers s) \<union> gen ` {1..length as}"
proof -
  from submit_persisted(3) [OF assms(1)] obtain row where
    row: "qa_id row = gen 0" "qa_score row = r_score r"
      "qa_total_questions row = r_total_questions r"
    and sv: "saveAnswers gen 1 (gen 0) (r_answers r)
             (s\<lparr>quiz_attempts := quiz_attempts s @ [row]\<rparr>) = (None, s')"
    by blast
  from saveAnswers_None [OF sv] obtain rows where
    st: "topics s' = topics s" "questions s' = questions s"
      "quiz_attempts s' = quiz_attempts s @ [row]"
    and rows: "user_answers s' = user_answers s @ rows"
      "map ua_id rows = map gen [1..<1 + length (r_answers r)]"
    by auto
  show "topics s' = topics s" "questions s' = questions s" by (rule st)+
  show "\<exists>row. quiz_attempts s' = quiz_attempts s @ [row] \<and> qa_id row = gen 0 \<and>
           qa_score row = r_score r \<and> qa_total_questions row = r_total_questions r"
    using st(3) row by blast
  have "length (r_answers r) \<le> length as"
    unfolding submit_scoring(3) [OF assms] by (rule length_scoreLoop)
  then have "set [1..<1 + length (r_answers r)] \<subseteq> {1..length as}" by auto
  then have "gen ` set [1..<1 + length (r_answers r)] \<subseteq> gen ` {1..length as}"
    by (rule image_mono)
  moreover have "ua_id ` set rows = gen ` set [1..<1 + length (r_answers r)]"
    using arg_cong [OF rows(2), of set] by (simp only: set_map)
  ultimately have "ua_id ` set rows \<subseteq> gen ` {1..length as}"
    by (simp only:)
  moreover have "ua_id ` set (user_answers s') = ua_id ` set (user_answers s) \<union> ua_id ` set rows"
    unfolding rows(1) by (simp only: set_append image_Un)
  ultimately show "ua_id ` set (user_answers s') \<subseteq>
      ua_id ` set (user_answers s) \<union> gen ` {1..length as}"
    by blast
qed

subsection \<open>Ordering by random keys does not look at the rows\<close>

lemma insort_key_map_commute:
  assumes "\<And>x. k' (g x) = k x"
  shows "map g (insort_key k x xs) = insort_key k' (g x) (map g xs)"
  by (induction xs) (simp_all add: assms)

lemma sort_key_map_commute:
  assumes "\<And>x. k' (g x) = k x"
  shows "map g (sort_key k xs) = sort_key k' (map g xs)"
  by (induction xs) (simp_all add: insort_key_map_commute [of k' g k] assms)

lemma random_order_map:
  "map snd (sort_key fst (zip ks (map g rows))) = map g (map snd (sort_key fst (zip ks rows)))"
proof -
  have "zip ks (map g rows) = map (map_prod id g) (zip ks rows)"
    by (simp add: zip_map2 map_prod_def)
  then have "map snd (sort_key fst (zip ks (map g rows))) =
             map snd (sort_key fst (map (map_prod id g) (zip ks rows)))"
    by simp
  also have "sort_key fst (map (map_prod id g) (zip ks rows)) =
             map (map_prod id g) (sort_key fst (zip ks rows))"
    by (rule sort_key_map_commute [symmetric]) simp
  also have "map snd (map (map_prod id g) (sort_key fst (zip ks rows))) =
             map g (map snd (sort_key fst (zip ks rows)))"
    by (simp add: comp_def)
  finally show ?thesis .
qed

lemma random_order_member:
  "q \<in> set (map snd (sort_key fst (zip ks rows))) \<Longrightarrow> q \<in> set rows"
  by (auto dest: set_zip_rightD)

subsection \<open>The grade table\<close>




subsection \<open>The concrete identifiers\<close>

lemma uuid_in_qid1:
  "uuid_in qid1 = Some [160, 238, 188, 153, 156, 11, 78, 248, 187, 109, 107, 185, 189, 56, 10, 17]"
  by code_simp

lemma uuid_in_qid2:
  "uuid_in qid2 = Some [160, 238, 188, 153, 156, 11, 78, 248, 187, 109, 107, 185, 189, 56, 10, 18]"
  by code_simp

lemma uuid_in_qid9:
  "uuid_in qid9 = Some [160, 238, 188, 153, 156, 11, 78, 248, 187, 109, 107, 185, 189, 56, 10, 25]"
  by code_simp

lemma uuid_in_qid1_capitals:
  "uuid_in qid1_capitals =
     Some [160, 238, 188, 153, 156, 11, 78, 248, 187, 109, 107, 185, 189, 56, 10, 17]"
  by code_simp

text \<open>A text that is no identifier.\<close>

lemma uuid_in_zz: "uuid_in ''zz'' = None"
  by code_simp

lemma qid_neq:
  "qid1 \<noteq> qid2" "qid1 \<noteq> qid9" "qid2 \<noteq> qid9" "qid2 \<noteq> qid1" "qid9 \<noteq> qid1" "qid9 \<noteq> qid2"
  "qid1_capitals \<noteq> qid1" "qid1_capitals \<noteq> qid2" "''zz'' \<noteq> qid1" "''zz'' \<noteq> qid2"
  by (simp_all add: qid1_def qid2_def qid9_def qid1_capitals_def)

subsection \<open>Runs of the concrete requests\<close>

lemma demoGen_inj: "inj_on demoGen A"
  by (rule inj_onI) (simp add: demoGen_def replicate_eq_replicate)

lemma demo_topic: "getTopicBySlug ''javascript'' demoStore = Some demoTopic"
  by (simp add: getTopicBySlug_def demoStore_def demoTopic_def)

lemma demo_ids: "None \<notin> uuid_in ` a_question_id ` set demoAnswers"
  by (simp add: demoAnswers_def uuid_in_qid1 uuid_in_qid2 uuid_in_qid9)

lemma demo_run: "\<exists>r s'. submitQuiz demoGen demoRequest demoStore = (Json200 r, s')"
  by (rule submitQuiz_succeeds [where slug = "''javascript''" and as = demoAnswers])
     (simp_all add: demoRequest_def demo_topic demoGen_inj demo_ids,
      simp_all add: demoStore_def)

lemma demo_fetch:
  "getQuestionsByIds (map a_question_id demoAnswers) demoStore = Inr [demoQ1, demoQ2]"
  by (simp add: getQuestionsByIds_def demoAnswers_def demoStore_def demoQ1_def demoQ2_def
        uuid_in_qid1 uuid_in_qid2 uuid_in_qid9)

lemma demo_lookup:
  "questionMapFor demoAnswers demoStore = [qid1 \<mapsto> demoQ1, qid2 \<mapsto> demoQ2]"
  by (simp add: demo_fetch questionMapOf_def demoQ1_def demoQ2_def)

lemma demo_score: "scoreLoop (questionMapFor demoAnswers demoStore) demoAnswers 0 [] =
  (1, [detailOf (demoAnswers ! 0) demoQ1, detailOf (demoAnswers ! 2) demoQ2])"
  unfolding demo_lookup by (simp add: demoAnswers_def demoQ1_def demoQ2_def qid_neq)

lemma demoGen_eq: "demoGen m = demoGen n \<longleftrightarrow> m = n"
  using demoGen_inj [of UNIV] by (auto dest: inj_onD)

lemma tie_ids: "None \<notin> uuid_in ` a_question_id ` set tieAnswers"
  by (simp add: tieAnswers_def uuid_in_qid1)

lemma tie_run: "\<exists>r s'. submitQuiz demoGen tieRequest demoStore = (Json200 r, s')"
  by (rule submitQuiz_succeeds [where slug = "''javascript''" and as = tieAnswers])
     (simp_all add: tieRequest_def demo_topic demoGen_inj tie_ids,
      simp_all add: demoStore_def)

lemma tie_scoring:
  assumes "submitQuiz demoGen tieRequest demoStore = (Json200 r, s')"
  shows "r_score r = 23" and "r_total_questions r = 160"
proof -
  have as: "answers (body tieRequest) = Some tieAnswers"
    by (simp add: tieRequest_def)
  define M where "M = questionMapFor tieAnswers demoStore"
  have M: "M qid1 = Some demoQ1"
    unfolding M_def
    by (simp add: questionMapOf_def getQuestionsByIds_def tieAnswers_def demoStore_def
          demoQ1_def demoQ2_def uuid_in_qid1 uuid_in_qid2)
  have "fst (scoreLoop M tieAnswers 0 []) = 23"
    unfolding scoreLoop_eq by (simp add: tieAnswers_def M filter_replicate demoQ1_def)
  with submit_scoring(2) [OF assms as] show "r_score r = 23"
    by (simp add: M_def)
  from submit_scoring(1) [OF assms as] show "r_total_questions r = 160"
    by (simp add: tieAnswers_def)
qed

lemma tie_response:
  "\<exists>r s'. submitQuiz demoGen tieRequest demoStore = (Json200 r, s') \<and>
     r_score r = 23 \<and> r_total_questions r = 160 \<and>
     r_percentage r = Num (8089590830664253 / 2 ^ 49)"
proof -
  from tie_run obtain r s' where run: "submitQuiz demoGen tieRequest demoStore = (Json200 r, s')"
    by blast
  note sc = tie_scoring [OF run]
  have "r_percentage r = Num (8089590830664253 / 2 ^ 49)"
    unfolding submit_summary(1) [OF run] sc by (rule shown_23_160)
  with run sc show ?thesis
    by - (rule exI [where x = r], rule exI [where x = s'], simp)
qed

text \<open>A text that is no identifier, in a submission: \<^verbatim>\<open>submitQuiz\<close> catches what the
  query throws and answers with status 500; nothing is stored.\<close>

lemma submitQuiz_malformed_id:
  "submitQuiz demoGen
     \<lparr>user = Some ''u1'',
      body = \<lparr>topic_slug = Some ''javascript'',
              answers = Some [\<lparr>a_question_id = qid1, a_selected_answer = 2, a_time_taken = None\<rparr>,
                              \<lparr>a_question_id = ''zz'', a_selected_answer = 0, a_time_taken = None\<rparr>],
              total_time = None\<rparr>\<rparr>
     demoStore = (JsonError 500 ''Failed to submit quiz'', demoStore)"
  by (simp add: submitQuiz_def demo_topic getQuestionsByIds_def uuid_in_zz)

section \<open>The claims\<close>

text \<open>
  Claim C1. The claim does not hold of the source: the check of the body rejects a missing
  topic slug and a value of \<open>answers\<close> that is missing or not an array, and lets the
  empty array through. With the empty array \<open>0 / 0\<close> is NaN, no comparison with NaN
  holds, so the grade stays \<open>F\<close>; the attempt is written with 0 questions and a NaN
  percentage, and the response is the 200 envelope, whose percentage NaN is serialised
  as \<^verbatim>\<open>null\<close>.
\<close>

theorem empty_answers_accepted:
  "submitQuiz demoGen emptyRequest demoStore =
     (Json200
        \<lparr>r_attempt_id = ''k'', r_score = 0, r_total_questions = 0, r_percentage = NaN,
         r_grade = ''F'',
         r_feedback = ''Keep practicing! Focus on understanding the concepts.'',
         r_time_taken = 12, r_answers = [],
         r_topic_analysis =
           \<lparr>ta_topic = ''JavaScript'', ta_correct = 0, ta_total = 0, ta_percentage = NaN\<rparr>\<rparr>,
      demoStore\<lparr>quiz_attempts :=
        [\<lparr>qa_id = ''k'', qa_user_id = ''u1'', qa_topic_id = ''t1'', qa_score = 0,
          qa_total_questions = 0, qa_percentage = NaN, qa_time_taken = 12\<rparr>]\<rparr>)"
  by (simp add: submitQuiz_def emptyRequest_def demo_topic js_div_def gradeFeedback_def
        createQuizAttempt_def demoGen_def Let_def getQuestionsByIds_Nil)
     (simp add: demoStore_def demoTopic_def)

text \<open>
  Claim C2. In a successful submission the reported \<open>total_questions\<close> is the length
  of the whole submitted list; the score counts exactly the answers whose question is in
  the lookup and whose selected option is the correct one; the per-answer details are
  exactly the details of the answers whose question is in the lookup, in their order; and
  no detail record carries the identifier of an answer that is absent from the lookup.
\<close>

theorem submitQuiz_skips_unmatched:
  assumes "submitQuiz gen req s = (Json200 r, s')"
    and "answers (body req) = Some as"
  shows "r_total_questions r = length as \<and>
         r_score r =
           length (filter (\<lambda>a. case questionMapFor as s (a_question_id a) of None \<Rightarrow> False
                                | Some q \<Rightarrow> a_selected_answer a = q_correct_answer q) as) \<and>
         r_answers r =
           map (\<lambda>a. detailOf a (the (questionMapFor as s (a_question_id a))))
             (filter (\<lambda>a. questionMapFor as s (a_question_id a) \<noteq> None) as) \<and>
         (\<forall>a \<in> set as. questionMapFor as s (a_question_id a) = None \<longrightarrow>
            a_question_id a \<notin> da_question_id ` set (r_answers r))"
proof -
  note r = submit_scoring [OF assms]
  have tot: "r_total_questions r = length as" using r by simp
  have sc: "r_score r =
           length (filter (\<lambda>a. case questionMapFor as s (a_question_id a) of None \<Rightarrow> False
                                | Some q \<Rightarrow> a_selected_answer a = q_correct_answer q) as)"
    using r by (simp add: scoreLoop_eq)
  have det: "r_answers r =
           map (\<lambda>a. detailOf a (the (questionMapFor as s (a_question_id a))))
             (filter (\<lambda>a. questionMapFor as s (a_question_id a) \<noteq> None) as)"
    using r by (simp add: scoreLoop_eq)
  have "\<forall>a \<in> set as. questionMapFor as s (a_question_id a) = None \<longrightarrow>
           a_question_id a \<notin> da_question_id ` set (r_answers r)"
  proof (intro ballI impI notI)
    fix a assume "a \<in> set as" and none: "questionMapFor as s (a_question_id a) = None"
      and "a_question_id a \<in> da_question_id ` set (r_answers r)"
    then obtain b where b: "b \<in> set as" "questionMapFor as s (a_question_id b) \<noteq> None"
      "a_question_id a = da_question_id (detailOf b (the (questionMapFor as s (a_question_id b))))"
      unfolding det by auto
    from b(2) obtain q where q: "questionMapFor as s (a_question_id b) = Some q" by auto
    from questionMapOf_Some [OF q] have "q_id q = a_question_id b" by simp
    with b(3) q have "a_question_id a = a_question_id b" by (simp add: detailOf_def)
    with none q show False by simp
  qed
  with tot sc det show ?thesis by blast
qed

text \<open>The concrete run: of the three answers, the one for \<open>qid9\<close> has no question.\<close>

theorem submitQuiz_skips_unmatched_witness:
  "\<exists>r s'. submitQuiz demoGen demoRequest demoStore = (Json200 r, s') \<and>
     r_total_questions r = 3 \<and> r_score r = 1 \<and>
     map da_question_id (r_answers r) = [qid1, qid2] \<and>
     qid9 \<notin> da_question_id ` set (r_answers r)"
proof -
  from demo_run obtain r s' where run: "submitQuiz demoGen demoRequest demoStore = (Json200 r, s')"
    by blast
  have as: "answers (body demoRequest) = Some demoAnswers"
    by (simp add: demoRequest_def)
  from submitQuiz_skips_unmatched [OF run as]
  have "r_total_questions r = 3 \<and> r_score r = 1 \<and>
     map da_question_id (r_answers r) = [qid1, qid2] \<and>
     qid9 \<notin> da_question_id ` set (r_answers r)"
    unfolding demo_lookup
    by (simp add: demoAnswers_def demoQ1_def demoQ2_def detailOf_def qid_neq)
  with run show ?thesis
    by - (rule exI [where x = r], rule exI [where x = s'], simp)
qed



text \<open>
  Claim C4. As stated the claim does not hold of the source. The percentage is computed
  in binary floating point, so a quotient that lies exactly halfway between two
  hundredths can reach \<^verbatim>\<open>toFixed\<close> a little below the half: for 23 correct answers
  out of 160 the exact quotient is \<open>14.375\<close>, which rounds to \<open>14.38\<close> both away from
  zero and to even, and the response carries \<open>14.37\<close> (the double
  \<open>8089590830664253 / 2 ^ 49\<close>).
\<close>

theorem submitQuiz_percentage_counterexample:
  "\<not> (\<forall>gen req s r s'. submitQuiz gen req s = (Json200 r, s') \<longrightarrow>
        r_percentage r = Num (round_double (spec_round2_half_away
            (100 * of_nat (r_score r) / of_nat (r_total_questions r)))) \<or>
        r_percentage r = Num (round_double (spec_round2_half_even
            (100 * of_nat (r_score r) / of_nat (r_total_questions r)))))"
proof
  assume all: "\<forall>gen req s r s'. submitQuiz gen req s = (Json200 r, s') \<longrightarrow>
        r_percentage r = Num (round_double (spec_round2_half_away
            (100 * of_nat (r_score r) / of_nat (r_total_questions r)))) \<or>
        r_percentage r = Num (round_double (spec_round2_half_even
            (100 * of_nat (r_score r) / of_nat (r_total_questions r))))"
  from tie_response obtain r s' where
    run: "submitQuiz demoGen tieRequest demoStore = (Json200 r, s')"
    and sc: "r_score r = 23" "r_total_questions r = 160"
    and shown: "r_percentage r = Num (8089590830664253 / 2 ^ 49)"
    by blast
  from all run have "r_percentage r = Num (round_double (spec_round2_half_away
            (100 * of_nat (r_score r) / of_nat (r_total_questions r)))) \<or>
        r_percentage r = Num (round_double (spec_round2_half_even
            (100 * of_nat (r_score r) / of_nat (r_total_questions r))))"
    by blast
  moreover have "(100 * of_nat (r_score r) / of_nat (r_total_questions r) :: rat) = 100 * 23 / 160"
    unfolding sc by simp
  ultimately have "r_percentage r = Num (round_double (1438 / 100))"
    by (simp only: spec_rounds_23_160 simp_thms)
  then show False
    unfolding shown rd_1438 by simp
qed

text \<open>
  Claim C4, amended. For a successful submission of at least one and fewer than
  \<open>2 ^ 32\<close> answers (the bound on the length of an array), the percentage of the
  response is the double nearest to a decimal \<open>m / 100\<close> with two places that is at
  most \<open>0.005\<close> away from the exact quotient \<open>100 * score / total_questions\<close>: the
  nearest hundredth when there is only one, either neighbour when the quotient is
  halfway between two.
\<close>

theorem submitQuiz_percentage_nearest_hundredth:
  assumes "submitQuiz gen req s = (Json200 r, s')"
    and "0 < r_total_questions r" and "r_total_questions r < 2 ^ 32"
  shows "\<exists>m. r_percentage r = Num (round_double (of_int m / 100)) \<and>
           \<bar>rat_of_int m / 100 - 100 * of_nat (r_score r) / of_nat (r_total_questions r)\<bar>
             \<le> 1 / 200"
proof -
  from assms(1) obtain as where as: "answers (body req) = Some as"
    by (rule submitQuiz_Json200)
  have "r_score r \<le> r_total_questions r"
    using submit_scoring(1,2) [OF assms(1) as] by (simp add: scoreLoop_eq)
  from percentage_rounding [OF this assms(2,3)] show ?thesis
    unfolding submit_summary(1) [OF assms(1)] .
qed

theorem submitQuiz_percentage_nearest_hundredth_witness:
  "\<exists>r s'. submitQuiz demoGen demoRequest demoStore = (Json200 r, s') \<and>
     0 < r_total_questions r \<and> r_total_questions r < 2 ^ 32 \<and>
     (\<exists>m. r_percentage r = Num (round_double (of_int m / 100)) \<and>
           \<bar>rat_of_int m / 100 - 100 * of_nat (r_score r) / of_nat (r_total_questions r)\<bar>
             \<le> 1 / 200)"
proof -
  from demo_run obtain r s' where run: "submitQuiz demoGen demoRequest demoStore = (Json200 r, s')"
    by blast
  have as: "answers (body demoRequest) = Some demoAnswers"
    by (simp add: demoRequest_def)
  have tot: "r_total_questions r = 3"
    using submit_scoring(1) [OF run as] by (simp add: demoAnswers_def)
  then have h: "0 < r_total_questions r" "r_total_questions r < 2 ^ 32"
    by simp_all
  from submitQuiz_percentage_nearest_hundredth [OF run h] run h show ?thesis
    by - (rule exI [where x = r], rule exI [where x = s'], intro conjI)
qed

text \<open>
  Claim C5. The claim does not hold of the source: the topic analysis carries the
  percentage as computed, the summary carries it after
  \<^verbatim>\<open>parseFloat(percentage.toFixed(2))\<close>. The counts agree. For one correct answer out
  of three the summary says \<open>33.33\<close> and the topic analysis \<open>33.33333333333333\<close>
  (both written as the exact values of the doubles).
\<close>

theorem topic_analysis_percentage_unrounded:
  "\<exists>r s'. submitQuiz demoGen demoRequest demoStore = (Json200 r, s') \<and>
     r_score r = 1 \<and> r_total_questions r = 3 \<and>
     ta_correct (r_topic_analysis r) = 1 \<and> ta_total (r_topic_analysis r) = 3 \<and>
     r_percentage r = Num (2345390243441541 / 70368744177664) \<and>
     ta_percentage (r_topic_analysis r) = Num (2345624805922133 / 70368744177664) \<and>
     ta_percentage (r_topic_analysis r) \<noteq> r_percentage r"
proof -
  from demo_run obtain r s' where run: "submitQuiz demoGen demoRequest demoStore = (Json200 r, s')"
    by blast
  have as: "answers (body demoRequest) = Some demoAnswers"
    by (simp add: demoRequest_def)
  have sc: "r_score r = 1"
    using submit_scoring(2) [OF run as] unfolding demo_score by simp
  have tot: "r_total_questions r = 3"
    using submit_scoring(1) [OF run as] by (simp add: demoAnswers_def)
  note su = submit_summary [OF run]
  have "r_percentage r = Num (2345390243441541 / 70368744177664)"
    unfolding su(1) sc tot by (rule shown_1_3)
  moreover have "ta_percentage (r_topic_analysis r) = Num (2345624805922133 / 70368744177664)"
    unfolding su(6) sc tot by (rule percentage_1_3)
  moreover have "ta_correct (r_topic_analysis r) = 1" "ta_total (r_topic_analysis r) = 3"
    using su(4,5) sc tot by simp_all
  ultimately show ?thesis using run sc tot
    by - (rule exI [where x = r], rule exI [where x = s'], simp)
qed

text \<open>
  Claim C6. In a successful submission the score lies between 0 and
  \<open>total_questions\<close>, which is the length of the submitted list; the attempt row
  written by the submission stores the same two numbers.
\<close>

theorem submitQuiz_score_bounds:
  assumes "submitQuiz gen req s = (Json200 r, s')"
    and "answers (body req) = Some as"
  shows "0 \<le> r_score r \<and> r_score r \<le> r_total_questions r \<and> r_total_questions r = length as \<and>
         (\<exists>row. quiz_attempts s' = quiz_attempts s @ [row] \<and> qa_score row = r_score r \<and>
            qa_total_questions row = r_total_questions r \<and> qa_score row \<le> qa_total_questions row)"
proof -
  note r = submit_scoring [OF assms]
  have le: "r_score r \<le> r_total_questions r"
    using r by (simp add: scoreLoop_eq)
  from submit_persisted(3) [OF assms(1)] obtain row where
    row: "qa_score row = r_score r" "qa_total_questions row = r_total_questions r"
    and sv: "saveAnswers gen 1 (gen 0) (r_answers r)
             (s\<lparr>quiz_attempts := quiz_attempts s @ [row]\<rparr>) = (None, s')"
    by blast
  from saveAnswers_None [OF sv] have "quiz_attempts s' = quiz_attempts s @ [row]"
    by simp
  with le r(1) row show ?thesis by auto
qed

theorem submitQuiz_score_bounds_witness:
  "\<exists>r s'. submitQuiz demoGen demoRequest demoStore = (Json200 r, s') \<and>
     r_score r \<le> r_total_questions r \<and> r_total_questions r = 3 \<and>
     (\<exists>row. quiz_attempts s' = [row] \<and> qa_score row = r_score r \<and> qa_total_questions row = 3)"
proof -
  from demo_run obtain r s' where run: "submitQuiz demoGen demoRequest demoStore = (Json200 r, s')"
    by blast
  have as: "answers (body demoRequest) = Some demoAnswers"
    by (simp add: demoRequest_def)
  from submitQuiz_score_bounds [OF run as]
  have "r_score r \<le> r_total_questions r \<and> r_total_questions r = 3 \<and>
     (\<exists>row. quiz_attempts s' = [row] \<and> qa_score row = r_score r \<and> qa_total_questions row = 3)"
    by (auto simp: demoAnswers_def demoStore_def)
  with run show ?thesis
    by - (rule exI [where x = r], rule exI [where x = s'], simp)
qed

text \<open>
  Claim C7. Whatever the topic, the limit and the difficulty, a sequence returned by
  \<^verbatim>\<open>getQuestionsForQuiz\<close> has at most \<open>limit\<close> elements (10 when no limit is
  given), and each element is the four-field projection \<open>forQuiz\<close> of a question of the
  topic: the type \<open>questionForQuiz\<close> has the fields identifier, prompt, options and
  difficulty and no other. Moreover the result does not depend on the correct answers and
  the explanations stored in the table: overwriting them in every row leaves the result
  unchanged.
\<close>

theorem getQuestionsForQuiz_withholds_answers:
  "(\<forall>rs. getQuestionsForQuiz rnd topicId limit difficulty s = Inr rs \<longrightarrow>
      int (length rs) \<le> (case limit of None \<Rightarrow> 10 | Some l \<Rightarrow> l) \<and>
      (\<forall>x \<in> set rs. \<exists>q \<in> set (questions s). q_topic_id q = topicId \<and> x = forQuiz q)) \<and>
   getQuestionsForQuiz rnd topicId limit difficulty
     (s\<lparr>questions := map (\<lambda>q. q\<lparr>q_correct_answer := ca q, q_explanation := ex q\<rparr>)
                        (questions s)\<rparr>) =
   getQuestionsForQuiz rnd topicId limit difficulty s"
proof (intro conjI allI impI)
  define lim where "lim = (case limit of None \<Rightarrow> 10 | Some l \<Rightarrow> l)"
  define P :: "question \<Rightarrow> bool" where "P = (\<lambda>q. q_topic_id q = topicId \<and>
                    (case difficulty of None \<Rightarrow> True
                     | Some d \<Rightarrow> if d = [] then True else q_difficulty q = d))"
  define g :: "question \<Rightarrow> question" where "g = (\<lambda>q. q\<lparr>q_correct_answer := ca q, q_explanation := ex q\<rparr>)"
  have def: "getQuestionsForQuiz rnd topicId limit difficulty s' =
     (if lim < 0 then Inl NegativeLimit
      else Inr (map forQuiz (take (nat lim)
        (map snd (sort_key fst (zip (map rnd [0..<length (filter P (questions s'))])
            (filter P (questions s'))))))))" for s'
    by (simp add: getQuestionsForQuiz_def lim_def P_def Let_def)
  {
    fix rs assume rs: "getQuestionsForQuiz rnd topicId limit difficulty s = Inr rs"
    then have nn: "0 \<le> lim" and rs_eq: "rs = map forQuiz (take (nat lim)
        (map snd (sort_key fst (zip (map rnd [0..<length (filter P (questions s))])
            (filter P (questions s))))))"
      unfolding def by (auto split: if_splits)
    have "length rs \<le> nat lim" unfolding rs_eq by simp
    with nn show "int (length rs) \<le> (case limit of None \<Rightarrow> 10 | Some l \<Rightarrow> l)"
      unfolding lim_def [symmetric] by linarith
    show "\<forall>x \<in> set rs. \<exists>q \<in> set (questions s). q_topic_id q = topicId \<and> x = forQuiz q"
    proof
      fix x assume "x \<in> set rs"
      then obtain q where q: "x = forQuiz q" "q \<in> set (take (nat lim)
        (map snd (sort_key fst (zip (map rnd [0..<length (filter P (questions s))])
            (filter P (questions s))))))"
        unfolding rs_eq by auto
      from q(2) have "q \<in> set (map snd (sort_key fst
           (zip (map rnd [0..<length (filter P (questions s))]) (filter P (questions s)))))"
        by (rule in_set_takeD)
      then have "q \<in> set (filter P (questions s))" by (rule random_order_member)
      then have "q \<in> set (questions s)" "q_topic_id q = topicId"
        by (simp_all add: P_def)
      with q(1) show "\<exists>q \<in> set (questions s). q_topic_id q = topicId \<and> x = forQuiz q"
        by blast
    qed
  }
  have Pg: "P (g q) = P q" for q by (simp add: P_def g_def split: option.splits)
  have fg: "forQuiz (g q) = forQuiz q" for q by (simp add: forQuiz_def g_def)
  have filt: "filter P (map g qs) = map g (filter P qs)" for qs
    by (simp add: filter_map comp_def Pg)
  show "getQuestionsForQuiz rnd topicId limit difficulty
     (s\<lparr>questions := map (\<lambda>q. q\<lparr>q_correct_answer := ca q, q_explanation := ex q\<rparr>)
                        (questions s)\<rparr>) =
   getQuestionsForQuiz rnd topicId limit difficulty s"
  proof -
    have q': "questions (s\<lparr>questions := map g (questions s)\<rparr>) = map g (questions s)"
      by simp
    have ord: "map snd (sort_key fst (zip (map rnd [0..<length (filter P (map g (questions s)))])
                 (filter P (map g (questions s))))) =
          map g (map snd (sort_key fst (zip (map rnd [0..<length (filter P (questions s))])
                 (filter P (questions s)))))"
      unfolding filt length_map by (rule random_order_map)
    have tk: "map forQuiz (take n (map g xs)) = map forQuiz (take n xs)" for n xs
      by (simp add: take_map fg)
    show ?thesis
      unfolding g_def [symmetric] def q' ord tk ..
  qed
qed

theorem getQuestionsForQuiz_withholds_answers_witness:
  "getQuestionsForQuiz (\<lambda>i. 7 - i) ''t1'' (Some 1) None demoStore = Inr [forQuiz demoQ2] \<and>
   int (length [forQuiz demoQ2]) \<le> 1 \<and>
   getQuestionsForQuiz (\<lambda>i. 7 - i) ''t1'' (Some 1) None
     (demoStore\<lparr>questions := map (\<lambda>q. q\<lparr>q_correct_answer := 0, q_explanation := []\<rparr>)
                                (questions demoStore)\<rparr>) = Inr [forQuiz demoQ2]"
proof -
  have run: "getQuestionsForQuiz (\<lambda>i. 7 - i) ''t1'' (Some 1) None demoStore = Inr [forQuiz demoQ2]"
    by (simp add: getQuestionsForQuiz_def demoStore_def demoQ1_def demoQ2_def)
  from getQuestionsForQuiz_withholds_answers
    [where rnd = "\<lambda>i. 7 - i" and topicId = "''t1''" and limit = "Some 1" and difficulty = None
       and s = demoStore and ca = "\<lambda>q. 0" and ex = "\<lambda>q. []"] run
  show ?thesis by simp
qed

text \<open>
  Claim C8. The scoring reads only the request and the tables of topics and questions,
  which a submission does not change. So when a submission has succeeded and the same
  request is submitted again, with fresh keys drawn by the store, the second submission
  succeeds as well: nothing recognises the repetition. Its result equals the first one
  in score, total, percentage, grade, feedback, details and topic analysis, and differs
  only in the identifier of the attempt; the store then holds one attempt row for each of
  the two submissions, with the same score.
\<close>

theorem submitQuiz_twice:
  assumes "submitQuiz gen1 req s = (Json200 r1, s1)"
    and "answers (body req) = Some as"
    and "gen2 0 \<notin> qa_id ` set (quiz_attempts s1)"
    and "inj_on gen2 {1..length as}"
    and "\<forall>j \<in> {1..length as}. gen2 j \<notin> ua_id ` set (user_answers s1)"
  shows "\<exists>r2 s2. submitQuiz gen2 req s1 = (Json200 r2, s2) \<and>
           r_score r2 = r_score r1 \<and> r_total_questions r2 = r_total_questions r1 \<and>
           r_percentage r2 = r_percentage r1 \<and> r_grade r2 = r_grade r1 \<and>
           r_feedback r2 = r_feedback r1 \<and> r_answers r2 = r_answers r1 \<and>
           r_topic_analysis r2 = r_topic_analysis r1 \<and>
           r_attempt_id r2 \<noteq> r_attempt_id r1 \<and>
           (\<exists>a1 a2. quiz_attempts s2 = quiz_attempts s @ [a1, a2] \<and>
              qa_id a1 = r_attempt_id r1 \<and> qa_id a2 = r_attempt_id r2 \<and>
              qa_score a1 = qa_score a2)"
proof -
  note st1 = submit_store [OF assms(1,2)]
  from assms(1) obtain userId slug as' topic where
    req: "user req = Some userId" "topic_slug (body req) = Some slug" "slug \<noteq> []"
      "answers (body req) = Some as'" "getTopicBySlug slug s = Some topic"
    and r1: "r_topic_analysis r1 =
            \<lparr>ta_topic = t_name topic,
             ta_correct = fst (scoreLoop (questionMapFor as' s) as' 0 []),
             ta_total = length as',
             ta_percentage = percentageOf
               (fst (scoreLoop (questionMapFor as' s) as' 0 [])) (length as')\<rparr>"
    by (rule submitQuiz_Json200) simp
  from req(4) assms(2) have as': "as' = as" by simp
  have topic1: "getTopicBySlug slug s1 = Some topic"
    using getTopicBySlug_topics [OF st1(1)] req(5) by simp
  have map1: "questionMapFor as s1 = questionMapFor as s"
    using getQuestionsByIds_questions [OF st1(2)] by simp
  from submitQuiz_succeeds [OF req(1-3) assms(2) topic1 assms(3-5)
         submit_fetched(2) [OF assms(1,2)]]
  obtain r2 s2 where run2: "submitQuiz gen2 req s1 = (Json200 r2, s2)" by blast
  note sc1 = submit_scoring [OF assms(1,2)]
  note sc2 = submit_scoring [OF run2 assms(2)]
  note su1 = submit_summary [OF assms(1)]
  note su2 = submit_summary [OF run2]
  note st2 = submit_store [OF run2 assms(2)]
  have score: "r_score r2 = r_score r1" and total: "r_total_questions r2 = r_total_questions r1"
    and det: "r_answers r2 = r_answers r1"
    using sc1 sc2 by (simp_all add: map1)
  from run2 obtain userId2 slug2 as2 topic2 where
    req2: "topic_slug (body req) = Some slug2" "answers (body req) = Some as2"
      "getTopicBySlug slug2 s1 = Some topic2"
    and r2: "r_topic_analysis r2 =
            \<lparr>ta_topic = t_name topic2,
             ta_correct = fst (scoreLoop (questionMapFor as2 s1) as2 0 []),
             ta_total = length as2,
             ta_percentage = percentageOf
               (fst (scoreLoop (questionMapFor as2 s1) as2 0 [])) (length as2)\<rparr>"
    by (rule submitQuiz_Json200) simp
  from req2 req(2) assms(2) topic1 have "slug2 = slug" "as2 = as" "topic2 = topic"
    by simp_all
  then have ta: "r_topic_analysis r2 = r_topic_analysis r1"
    using r1 r2 as' by (simp add: map1)
  from st1(3) obtain a1 where
    a1: "quiz_attempts s1 = quiz_attempts s @ [a1]" "qa_id a1 = gen1 0" "qa_score a1 = r_score r1"
    by blast
  from st2(3) obtain a2 where
    a2: "quiz_attempts s2 = quiz_attempts s1 @ [a2]" "qa_id a2 = gen2 0" "qa_score a2 = r_score r2"
    by blast
  have ids: "r_attempt_id r1 = gen1 0" "r_attempt_id r2 = gen2 0"
    using submit_persisted(1) [OF assms(1)] submit_persisted(1) [OF run2] by simp_all
  have "gen1 0 \<in> qa_id ` set (quiz_attempts s1)"
    using a1 by force
  with assms(3) have neq: "r_attempt_id r2 \<noteq> r_attempt_id r1"
    unfolding ids by metis
  have rows: "\<exists>a1 a2. quiz_attempts s2 = quiz_attempts s @ [a1, a2] \<and>
              qa_id a1 = r_attempt_id r1 \<and> qa_id a2 = r_attempt_id r2 \<and>
              qa_score a1 = qa_score a2"
    using a1 a2 ids score by (intro exI [where x = a1] exI [where x = a2]) simp
  have "r_percentage r2 = r_percentage r1" "r_grade r2 = r_grade r1"
    "r_feedback r2 = r_feedback r1"
    using su1(1-3) su2(1-3) by (simp_all add: score total)
  with run2 score total det ta neq rows show ?thesis
    by - (rule exI [where x = r2], rule exI [where x = s2], simp)
qed

text \<open>The concrete request submitted twice, the second time with the keys
  \<open>demoGen 10\<close>, \<open>demoGen 11\<close>, ...\<close>

theorem submitQuiz_twice_witness:
  "\<exists>r1 s1 r2 s2. submitQuiz demoGen demoRequest demoStore = (Json200 r1, s1) \<and>
     submitQuiz (\<lambda>n. demoGen (n + 10)) demoRequest s1 = (Json200 r2, s2) \<and>
     r_score r2 = r_score r1 \<and> r_percentage r2 = r_percentage r1 \<and>
     r_answers r2 = r_answers r1 \<and> r_attempt_id r2 \<noteq> r_attempt_id r1 \<and>
     length (quiz_attempts s2) = 2"
proof -
  from demo_run obtain r1 s1 where run: "submitQuiz demoGen demoRequest demoStore = (Json200 r1, s1)"
    by blast
  have as: "answers (body demoRequest) = Some demoAnswers"
    by (simp add: demoRequest_def)
  note st = submit_store [OF run as]
  have ne: "demoGen (j + 10) \<noteq> demoGen i" if "i \<le> 3" for i j
    using that by (simp add: demoGen_eq)
  from st(3) obtain row where "quiz_attempts s1 = quiz_attempts demoStore @ [row]"
    "qa_id row = demoGen 0" by blast
  then have h3: "demoGen (0 + 10) \<notin> qa_id ` set (quiz_attempts s1)"
    using ne [of 0 0] by (simp add: demoStore_def)
  have h4: "inj_on (\<lambda>n. demoGen (n + 10)) {1..length demoAnswers}"
    by (rule inj_onI) (simp add: demoGen_eq)
  have h5: "\<forall>j \<in> {1..length demoAnswers}. demoGen (j + 10) \<notin> ua_id ` set (user_answers s1)"
  proof
    fix j assume "j \<in> {1..length demoAnswers}"
    have "demoGen (j + 10) \<notin> demoGen ` {1..length demoAnswers}"
    proof
      assume "demoGen (j + 10) \<in> demoGen ` {1..length demoAnswers}"
      then obtain i where "i \<in> {1..length demoAnswers}" "demoGen (j + 10) = demoGen i"
        by blast
      then show False using ne [of i j] by (simp add: demoAnswers_def)
    qed
    with st(4) show "demoGen (j + 10) \<notin> ua_id ` set (user_answers s1)"
      by (auto simp: demoStore_def)
  qed
  from submitQuiz_twice [OF run as, of "\<lambda>n. demoGen (n + 10)", OF h3 h4 h5]
  obtain r2 s2 where
    "submitQuiz (\<lambda>n. demoGen (n + 10)) demoRequest s1 = (Json200 r2, s2)"
    "r_score r2 = r_score r1" "r_percentage r2 = r_percentage r1"
    "r_answers r2 = r_answers r1" "r_attempt_id r2 \<noteq> r_attempt_id r1"
    "\<exists>a1 a2. quiz_attempts s2 = quiz_attempts demoStore @ [a1, a2]"
    by blast
  with run show ?thesis
    by - (rule exI [where x = r1], rule exI [where x = s1], rule exI [where x = r2],
          rule exI [where x = s2], auto simp: demoStore_def)
qed

text \<open>
  Claim C9. As stated the claim does not hold of the source. The column
  \<^verbatim>\<open>questions.id\<close> has type \<^verbatim>\<open>UUID\<close>, and the store converts every text of the
  array to that type before it compares: for the list of the first question's identifier
  and the text \<^verbatim>\<open>zz\<close>, which no record has, the query does not return the first
  question and leave the other out; it throws.
\<close>

theorem getQuestionsByIds_malformed_counterexample:
  "''zz'' \<notin> q_id ` set (questions demoStore) \<and>
   getQuestionsByIds [qid1, ''zz''] demoStore = Inl InvalidTextRepresentation"
  by (simp add: getQuestionsByIds_def uuid_in_zz demoStore_def demoQ1_def demoQ2_def qid_neq)

text \<open>
  Claim C9, amended. For every list of texts that all denote a \<^verbatim>\<open>UUID\<close>,
  \<^verbatim>\<open>getQuestionsByIds\<close> returns records of the table, whole, and exactly those whose
  identifier is the value of one of the requested texts, in particular every record
  whose identifier is one of the texts as written; a requested identifier that no record
  has is left out of the result and changes nothing else in it. When one of the texts
  denotes no \<^verbatim>\<open>UUID\<close> the query throws the store's error.
\<close>

theorem getQuestionsByIds_well_formed:
  "(None \<notin> uuid_in ` set ids \<longrightarrow>
      (\<exists>qs. getQuestionsByIds ids s = Inr qs \<and>
         (\<forall>q \<in> set qs. q \<in> set (questions s) \<and> uuid_in (q_id q) \<in> uuid_in ` set ids) \<and>
         (\<forall>q \<in> set (questions s). uuid_in (q_id q) \<in> uuid_in ` set ids \<longrightarrow> q \<in> set qs) \<and>
         (\<forall>q \<in> set (questions s). q_id q \<in> set ids \<longrightarrow> q \<in> set qs) \<and>
         (\<forall>i. uuid_in i \<noteq> None \<and> uuid_in i \<notin> uuid_in ` q_id ` set (questions s) \<longrightarrow>
            getQuestionsByIds (ids @ [i]) s = Inr qs \<and>
            getQuestionsByIds (i # ids) s = Inr qs))) \<and>
   (None \<in> uuid_in ` set ids \<longrightarrow> getQuestionsByIds ids s = Inl InvalidTextRepresentation)"
proof (intro conjI impI)
  assume wf: "None \<notin> uuid_in ` set ids"
  define qs where "qs = filter (\<lambda>q. uuid_in (q_id q) \<in> uuid_in ` set ids) (questions s)"
  have run: "getQuestionsByIds ids s = Inr qs"
    using wf by (simp add: getQuestionsByIds_Inr qs_def)
  have more: "getQuestionsByIds (ids @ [i]) s = Inr qs \<and> getQuestionsByIds (i # ids) s = Inr qs"
    if "uuid_in i \<noteq> None \<and> uuid_in i \<notin> uuid_in ` q_id ` set (questions s)" for i
  proof -
    have other: "uuid_in (q_id q) \<noteq> uuid_in i" if q: "q \<in> set (questions s)" for q
    proof
      assume "uuid_in (q_id q) = uuid_in i"
      with q have "uuid_in i \<in> uuid_in ` q_id ` set (questions s)"
        by (metis imageI)
      with \<open>uuid_in i \<noteq> None \<and> uuid_in i \<notin> uuid_in ` q_id ` set (questions s)\<close>
      show False by simp
    qed
    have "filter (\<lambda>q. uuid_in (q_id q) \<in> insert (uuid_in i) (uuid_in ` set ids)) (questions s) = qs"
      unfolding qs_def by (rule filter_cong) (simp_all add: other)
    then show ?thesis
      using wf that by (auto simp: getQuestionsByIds_Inr)
  qed
  show "\<exists>qs. getQuestionsByIds ids s = Inr qs \<and>
         (\<forall>q \<in> set qs. q \<in> set (questions s) \<and> uuid_in (q_id q) \<in> uuid_in ` set ids) \<and>
         (\<forall>q \<in> set (questions s). uuid_in (q_id q) \<in> uuid_in ` set ids \<longrightarrow> q \<in> set qs) \<and>
         (\<forall>q \<in> set (questions s). q_id q \<in> set ids \<longrightarrow> q \<in> set qs) \<and>
         (\<forall>i. uuid_in i \<noteq> None \<and> uuid_in i \<notin> uuid_in ` q_id ` set (questions s) \<longrightarrow>
            getQuestionsByIds (ids @ [i]) s = Inr qs \<and>
            getQuestionsByIds (i # ids) s = Inr qs)"
  proof (rule exI [where x = qs], intro conjI)
    show "getQuestionsByIds ids s = Inr qs" by (rule run)
    show "\<forall>q \<in> set qs. q \<in> set (questions s) \<and> uuid_in (q_id q) \<in> uuid_in ` set ids"
      by (simp add: qs_def)
    show "\<forall>q \<in> set (questions s). uuid_in (q_id q) \<in> uuid_in ` set ids \<longrightarrow> q \<in> set qs"
      by (simp add: qs_def)
    show "\<forall>q \<in> set (questions s). q_id q \<in> set ids \<longrightarrow> q \<in> set qs"
      by (simp add: qs_def)
    show "\<forall>i. uuid_in i \<noteq> None \<and> uuid_in i \<notin> uuid_in ` q_id ` set (questions s) \<longrightarrow>
            getQuestionsByIds (ids @ [i]) s = Inr qs \<and>
            getQuestionsByIds (i # ids) s = Inr qs"
      using more by blast
  qed
next
  assume "None \<in> uuid_in ` set ids"
  then show "getQuestionsByIds ids s = Inl InvalidTextRepresentation"
    by (simp add: getQuestionsByIds_Inl)
qed

theorem getQuestionsByIds_well_formed_witness:
  "None \<notin> uuid_in ` set [qid1_capitals] \<and>
   getQuestionsByIds [qid1_capitals] demoStore = Inr [demoQ1] \<and>
   demoQ1 \<in> set (questions demoStore) \<and>
   uuid_in (q_id demoQ1) \<in> uuid_in ` set [qid1_capitals] \<and>
   uuid_in qid9 \<noteq> None \<and> uuid_in qid9 \<notin> uuid_in ` q_id ` set (questions demoStore) \<and>
   getQuestionsByIds [qid1_capitals, qid9] demoStore = Inr [demoQ1] \<and>
   getQuestionsByIds [qid9, qid1_capitals] demoStore = Inr [demoQ1] \<and>
   None \<in> uuid_in ` set [''zz'', qid2] \<and>
   getQuestionsByIds [''zz'', qid2] demoStore = Inl InvalidTextRepresentation"
proof -
  have wf: "None \<notin> uuid_in ` set [qid1_capitals]"
    by (simp add: uuid_in_qid1_capitals)
  have one: "getQuestionsByIds [qid1_capitals] demoStore = Inr [demoQ1]"
    by (simp add: getQuestionsByIds_def demoStore_def demoQ1_def demoQ2_def
          uuid_in_qid1 uuid_in_qid2 uuid_in_qid1_capitals)
  have row: "demoQ1 \<in> set (questions demoStore)"
    "uuid_in (q_id demoQ1) \<in> uuid_in ` set [qid1_capitals]"
    by (simp_all add: demoStore_def demoQ1_def uuid_in_qid1 uuid_in_qid1_capitals)
  have absent: "uuid_in qid9 \<noteq> None \<and> uuid_in qid9 \<notin> uuid_in ` q_id ` set (questions demoStore)"
    by (simp add: demoStore_def demoQ1_def demoQ2_def uuid_in_qid1 uuid_in_qid2 uuid_in_qid9)
  have bad: "None \<in> uuid_in ` set [''zz'', qid2]"
    by (simp add: uuid_in_zz)
  from getQuestionsByIds_well_formed [of "[qid1_capitals]" demoStore] wf one absent
  have two: "getQuestionsByIds ([qid1_capitals] @ [qid9]) demoStore = Inr [demoQ1] \<and>
             getQuestionsByIds (qid9 # [qid1_capitals]) demoStore = Inr [demoQ1]"
    by auto
  from getQuestionsByIds_well_formed [of "[''zz'', qid2]" demoStore, THEN conjunct2] bad
  have three: "getQuestionsByIds [''zz'', qid2] demoStore = Inl InvalidTextRepresentation"
    by (rule mp)
  from wf one row absent two three bad show ?thesis
    by simp
qed

text \<open>
  Claim C10. The foreign key of \<^verbatim>\<open>user_answers.attempt_id\<close> holds in the store
  before the submission. After a successful submission the answer rows of the new attempt
  are as many as the submitted answers whose question identifier has a question in the
  table, hence at most \<open>total_questions\<close>, and strictly fewer as soon as one submitted
  identifier has no question; \<open>total_questions\<close> is also what the row of the attempt
  stores.
\<close>

theorem submitQuiz_answer_rows:
  assumes "submitQuiz gen req s = (Json200 r, s')"
    and "answers (body req) = Some as"
    and "\<forall>ua \<in> set (user_answers s). ua_attempt_id ua \<in> qa_id ` set (quiz_attempts s)"
  shows "length (filter (\<lambda>ua. ua_attempt_id ua = r_attempt_id r) (user_answers s')) =
           length (filter (\<lambda>a. a_question_id a \<in> q_id ` set (questions s)) as) \<and>
         length (filter (\<lambda>ua. ua_attempt_id ua = r_attempt_id r) (user_answers s')) \<le>
           r_total_questions r \<and>
         ((\<exists>a \<in> set as. a_question_id a \<notin> q_id ` set (questions s)) \<longrightarrow>
          length (filter (\<lambda>ua. ua_attempt_id ua = r_attempt_id r) (user_answers s')) <
           r_total_questions r) \<and>
         (\<exists>row \<in> set (quiz_attempts s'). qa_id row = r_attempt_id r \<and>
            qa_total_questions row = r_total_questions r)"
proof -
  note r = submit_scoring [OF assms(1,2)]
  note p = submit_persisted [OF assms(1)]
  from p(3) obtain row where
    sv: "saveAnswers gen 1 (gen 0) (r_answers r)
             (s\<lparr>quiz_attempts := quiz_attempts s @ [row]\<rparr>) = (None, s')"
    by blast
  have old: "filter (\<lambda>ua. ua_attempt_id ua = gen 0) (user_answers s) = []"
    unfolding filter_empty_conv using assms(3) p(2) by metis
  from submit_fetched(1) [OF assms(1,2)] obtain qs where
    qs: "getQuestionsByIds (map a_question_id as) s = Inr qs" by blast
  have matched: "filter (\<lambda>a. questionMapFor as s (a_question_id a) \<noteq> None) as =
                 filter (\<lambda>a. a_question_id a \<in> q_id ` set (questions s)) as"
    by (rule filter_cong) (simp_all add: questionMapFor_None [OF _ qs])
  have len: "length (r_answers r) =
       length (filter (\<lambda>a. a_question_id a \<in> q_id ` set (questions s)) as)"
    unfolding r(3) scoreLoop_eq by (simp only: snd_conv append_Nil length_map matched)
  have cnt: "length (filter (\<lambda>ua. ua_attempt_id ua = r_attempt_id r) (user_answers s')) =
           length (filter (\<lambda>a. a_question_id a \<in> q_id ` set (questions s)) as)"
  proof -
    from saveAnswers_None [OF sv] obtain rows where
      rows: "user_answers s' = user_answers s @ rows"
      "length rows = length (r_answers r)"
      "\<forall>ua \<in> set rows. ua_attempt_id ua = gen 0"
      by auto
    from rows(3) have "filter (\<lambda>ua. ua_attempt_id ua = gen 0) rows = rows"
      by simp
    then show ?thesis
      using old rows(2) by (simp add: rows(1) p(1) len)
  qed
  have "length (filter (\<lambda>a. a_question_id a \<in> q_id ` set (questions s)) as) < length as"
    if "\<exists>a \<in> set as. a_question_id a \<notin> q_id ` set (questions s)"
    using that by (auto intro: length_filter_less)
  moreover have "\<exists>row \<in> set (quiz_attempts s'). qa_id row = r_attempt_id r \<and>
            qa_total_questions row = r_total_questions r"
    using submit_store(3) [OF assms(1,2)] p(1) by auto
  ultimately show ?thesis
    unfolding cnt r(1) by simp
qed

theorem submitQuiz_answer_rows_witness:
  "\<exists>r s'. submitQuiz demoGen demoRequest demoStore = (Json200 r, s') \<and>
     length (filter (\<lambda>ua. ua_attempt_id ua = r_attempt_id r) (user_answers s')) = 2 \<and>
     r_total_questions r = 3 \<and>
     (\<exists>row \<in> set (quiz_attempts s'). qa_id row = r_attempt_id r \<and>
        qa_total_questions row = 3)"
proof -
  from demo_run obtain r s' where run: "submitQuiz demoGen demoRequest demoStore = (Json200 r, s')"
    by blast
  have as: "answers (body demoRequest) = Some demoAnswers"
    by (simp add: demoRequest_def)
  have fk: "\<forall>ua \<in> set (user_answers demoStore).
              ua_attempt_id ua \<in> qa_id ` set (quiz_attempts demoStore)"
    by (simp add: demoStore_def)
  have tot: "r_total_questions r = 3"
    using submit_scoring(1) [OF run as] by (simp add: demoAnswers_def)
  note inst = submitQuiz_answer_rows [OF run as fk]
  from inst have "length (filter (\<lambda>ua. ua_attempt_id ua = r_attempt_id r) (user_answers s')) = 2"
    by (simp add: demoAnswers_def demoStore_def demoQ1_def demoQ2_def qid_neq)
  moreover from inst have "\<exists>row \<in> set (quiz_attempts s'). qa_id row = r_attempt_id r \<and>
        qa_total_questions row = 3"
    unfolding tot by (elim conjE)
  ultimately show ?thesis using run tot
    by - (rule exI [where x = r], rule exI [where x = s'], simp)
qed

end
